theory Spec2Isabelle
  imports Main "HOL-Library.AList"
begin

section \<open>Python strings over Latin-1\<close>

text \<open>
  \<^verbatim>\<open>Verify_Script.py\<close> opens every artifact with \<^verbatim>\<open>encoding='latin-1'\<close>, so each byte
  of a file is one character with code point below 256: a Python string read from a file is a
  \<^typ>\<open>string\<close> here, and the functions below are Python's \<^verbatim>\<open>str\<close> methods restricted
  to that range.
\<close>

definition py_ord :: "char \<Rightarrow> nat" where
  "py_ord c = of_char c"

definition py_chr :: "nat \<Rightarrow> char" where
  "py_chr n = char_of n"

definition LF :: char where
  "LF = CHR 0x0A"

definition CR :: char where
  "CR = CHR 0x0D"

text \<open>
  \<^verbatim>\<open>str.isspace\<close> on one character: the code points below 256 that Python counts as
  whitespace are 9..13, 28..31, 32, 0x85 and 0xA0. \<^verbatim>\<open>str.strip()\<close> removes exactly these
  from both ends.
\<close>

definition isspace :: "char \<Rightarrow> bool" where
  "isspace c = (py_ord c \<in> {9, 10, 11, 12, 13, 28, 29, 30, 31, 32, 133, 160})"

definition strip :: "string \<Rightarrow> string" where
  "strip s = rev (dropWhile isspace (rev (dropWhile isspace s)))"

definition startswith :: "string \<Rightarrow> string \<Rightarrow> bool" where
  "startswith s p = (take (length p) s = p)"

text \<open>
  \<^verbatim>\<open>str.lower\<close>: below 256 the characters with a lowercase mapping are A..Z and the
  Latin-1 capitals 0xC0..0xDE without the multiplication sign 0xD7; each maps to the code
  32 above it.
\<close>

definition isupper :: "char \<Rightarrow> bool" where
  "isupper c = ((65 \<le> py_ord c \<and> py_ord c \<le> 90) \<or>
                (192 \<le> py_ord c \<and> py_ord c \<le> 222 \<and> py_ord c \<noteq> 215))"

definition lower_char :: "char \<Rightarrow> char" where
  "lower_char c = (if isupper c then py_chr (py_ord c + 32) else c)"

definition lower :: "string \<Rightarrow> string" where
  "lower s = map lower_char s"

text \<open>\<^verbatim>\<open>s.split(sep)\<close> for a separator of one character: never the empty list.\<close>

fun split :: "char \<Rightarrow> string \<Rightarrow> string list" where
  "split sep [] = [[]]"
| "split sep (c # cs) =
     (if c = sep then [] # split sep cs
      else (case split sep cs of
              [] \<Rightarrow> [[c]]
            | p # ps \<Rightarrow> (c # p) # ps))"

text \<open>\<^verbatim>\<open>f"{s:<12}"\<close>: pad with spaces on the right up to the width, never truncate.\<close>

definition ljust :: "nat \<Rightarrow> string \<Rightarrow> string" where
  "ljust w s = s @ replicate (w - length s) (CHR '' '')"

text \<open>\<^verbatim>\<open>str(n)\<close> for an integer: decimal digits, a minus sign for negatives.\<close>

definition digit_char :: "nat \<Rightarrow> char" where
  "digit_char d = py_chr (48 + d)"

fun str_nat :: "nat \<Rightarrow> string" where
  "str_nat n = (if n < 10 then [digit_char n] else str_nat (n div 10) @ [digit_char (n mod 10)])"

declare str_nat.simps [simp del]

definition str_int :: "int \<Rightarrow> string" where
  "str_int i = (if i < 0 then CHR ''-'' # str_nat (nat (- i)) else str_nat (nat i))"

subsection \<open>Exceptions\<close>

datatype py_exception =
    IndexError
  | ValueError
  | EOFError
  | KeyboardInterrupt
  | FileNotFoundError
  | SystemExit nat

subsection \<open>\<^verbatim>\<open>int(s)\<close>\<close>

text \<open>
  \<^verbatim>\<open>int(s)\<close> on a string, base 10, as CPython parses it: whitespace is skipped at both ends
  (the ASCII whitespace 9..13 and 32, and the non-ASCII whitespace 0x85 and 0xA0, which
  CPython first rewrites to a blank; the separators 28..31 are not skipped), then an optional
  sign, then decimal digits in which single underscores may stand between digits. Anything
  else raises \<^verbatim>\<open>ValueError\<close>. CPython 3.11 and later also raise \<^verbatim>\<open>ValueError\<close> when the
  literal has more digits than \<^verbatim>\<open>sys.get_int_max_str_digits()\<close>, 4300 unless reconfigured.
\<close>

definition int_space :: "char \<Rightarrow> bool" where
  "int_space c = (py_ord c \<in> {9, 10, 11, 12, 13, 32, 133, 160})"

definition isdigit :: "char \<Rightarrow> bool" where
  "isdigit c = (48 \<le> py_ord c \<and> py_ord c \<le> 57)"

definition digit_value :: "char \<Rightarrow> nat" where
  "digit_value c = py_ord c - 48"

text \<open>The body of a literal: a digit first, then digits or a single underscore followed by a digit.\<close>

fun digits_ok :: "string \<Rightarrow> bool" where
  "digits_ok [] = False"
| "digits_ok [c] = isdigit c"
| "digits_ok (c # d # ds) =
     (isdigit c \<and> (if d = CHR ''_'' then digits_ok ds else digits_ok (d # ds)))"

definition int_max_str_digits :: nat where
  "int_max_str_digits = 4300"

definition digits_value :: "string \<Rightarrow> nat" where
  "digits_value ds = foldl (\<lambda>acc c. 10 * acc + digit_value c) 0 ds"

definition py_int :: "string \<Rightarrow> py_exception + int" where
  "py_int s =
     (let t = rev (dropWhile int_space (rev (dropWhile int_space s)));
          neg = (t \<noteq> [] \<and> hd t = CHR ''-'');
          body = (if t \<noteq> [] \<and> (hd t = CHR ''+'' \<or> hd t = CHR ''-'') then tl t else t);
          ds = filter isdigit body
      in if \<not> digits_ok body then Inl ValueError
         else if int_max_str_digits < length ds then Inl ValueError
         else Inr (if neg then - int (digits_value ds) else int (digits_value ds)))"

section \<open>Console colours\<close>

definition RED :: string where
  "RED = CHR 0x1B # ''[91m''"

definition YELLOW :: string where
  "YELLOW = CHR 0x1B # ''[93m''"

definition RESET :: string where
  "RESET = CHR 0x1B # ''[0m''"

section \<open>Reading a sparse memory file: \<^verbatim>\<open>parse_file\<close>\<close>

text \<open>
  A file is opened in text mode with universal newlines: \<^verbatim>\<open>\r\n\<close> and a lone \<^verbatim>\<open>\r\<close> are
  both read as \<^verbatim>\<open>\n\<close>, and iterating the file yields the lines with their terminating
  \<^verbatim>\<open>\n\<close> kept (the last line may have none).
\<close>

fun universal_newlines :: "string \<Rightarrow> string" where
  "universal_newlines [] = []"
| "universal_newlines [c] = (if c = CR then [LF] else [c])"
| "universal_newlines (c # d # cs) =
     (if c = CR \<and> d = LF then LF # universal_newlines cs
      else if c = CR then LF # universal_newlines (d # cs)
      else c # universal_newlines (d # cs))"

fun keep_lines :: "string \<Rightarrow> string list" where
  "keep_lines [] = []"
| "keep_lines (c # cs) =
     (if c = LF then [LF] # keep_lines cs
      else (case keep_lines cs of
              [] \<Rightarrow> [[c]]
            | l # ls \<Rightarrow> (c # l) # ls))"

definition file_lines :: "string \<Rightarrow> string list" where
  "file_lines content = keep_lines (universal_newlines content)"

text \<open>
  A sparse memory image is a Python \<^verbatim>\<open>dict\<close> from \<^verbatim>\<open>int\<close> to \<^verbatim>\<open>str\<close>: an association
  list in insertion order. \<^verbatim>\<open>d[k] = v\<close> is \<^const>\<open>AList.update\<close>, which overwrites the value of
  a key already present in place and appends a new key at the end, as a \<^verbatim>\<open>dict\<close> does.
\<close>

type_synonym sparse_image = "(int \<times> string) list"

text \<open>The file system: the content of each file that exists, by name.\<close>

type_synonym filesystem = "string \<rightharpoonup> string"

text \<open>
  Lines 241-244, the body of the \<^verbatim>\<open>try\<close>: \<^verbatim>\<open>parts[0]\<close>, then \<^verbatim>\<open>int\<close> of it without its
  first character, then \<^verbatim>\<open>parts[1]\<close>, each of which can raise.
\<close>

definition parse_entry :: "string \<Rightarrow> sparse_image \<Rightarrow> py_exception + sparse_image" where
  "parse_entry line data =
     (case split (CHR '']'') line of
        [] \<Rightarrow> Inl IndexError
      | p0 # ps \<Rightarrow>
          (case py_int (drop 1 p0) of
             Inl e \<Rightarrow> Inl e
           | Inr index \<Rightarrow>
               (case ps of
                  [] \<Rightarrow> Inl IndexError
                | p1 # _ \<Rightarrow> Inr (AList.update index (lower (strip p1)) data))))"

definition parse_warning :: "string \<Rightarrow> string \<Rightarrow> string" where
  "parse_warning line filename =
     YELLOW @ ''Warning: Could not parse line '' @ [CHR 0x27] @ line @ [CHR 0x27] @
     '' in '' @ filename @ RESET"

text \<open>
  One iteration of the loop of lines 231-247, on the dictionary built so far and the lines
  printed so far. The handler of line 245 catches \<^verbatim>\<open>IndexError\<close> and \<^verbatim>\<open>ValueError\<close> only;
  any other exception would leave \<^verbatim>\<open>parse_file\<close>.
\<close>

definition parse_line ::
  "string \<Rightarrow> string \<Rightarrow> sparse_image \<times> string list \<Rightarrow> py_exception + sparse_image \<times> string list" where
  "parse_line filename raw st =
     (let line = strip raw in
      if line = [] \<or> startswith line ''//'' then Inr st
      else if startswith line ''['' then
        (case parse_entry line (fst st) of
           Inr data \<Rightarrow> Inr (data, snd st)
         | Inl e \<Rightarrow>
             if e = IndexError \<or> e = ValueError
             then Inr (fst st, snd st @ [parse_warning line filename])
             else Inl e)
      else Inr st)"

fun parse_loop ::
  "string \<Rightarrow> string list \<Rightarrow> sparse_image \<times> string list \<Rightarrow> py_exception + sparse_image \<times> string list" where
  "parse_loop filename [] st = Inr st"
| "parse_loop filename (raw # raws) st =
     (case parse_line filename raw st of
        Inl e \<Rightarrow> Inl e
      | Inr st' \<Rightarrow> parse_loop filename raws st')"

text \<open>
  \<^verbatim>\<open>parse_file\<close> returns \<^verbatim>\<open>None\<close> for a file that does not exist and the dictionary
  otherwise; the second component is what it printed.
\<close>

definition parse_file ::
  "filesystem \<Rightarrow> string \<Rightarrow> py_exception + sparse_image option \<times> string list" where
  "parse_file fs filename =
     (case fs filename of
        None \<Rightarrow> Inr (None, [])
      | Some content \<Rightarrow>
          (case parse_loop filename (file_lines content) ([], []) of
             Inl e \<Rightarrow> Inl e
           | Inr st \<Rightarrow> Inr (Some (fst st), snd st)))"

section \<open>Comparing two images: \<^verbatim>\<open>compare_data\<close>\<close>

definition MISSING :: string where
  "MISSING = ''MISSING''"

text \<open>\<^verbatim>\<open>d.get(k, default)\<close> and \<^verbatim>\<open>d.keys()\<close>.\<close>

definition dict_get :: "('k \<times> 'v) list \<Rightarrow> 'k \<Rightarrow> 'v \<Rightarrow> 'v" where
  "dict_get d k dflt = (case map_of d k of None \<Rightarrow> dflt | Some v \<Rightarrow> v)"

definition keys :: "('k \<times> 'v) list \<Rightarrow> 'k list" where
  "keys d = map fst d"

record mismatch =
  index :: int
  simulation :: string
  golden :: string

text \<open>The loop of lines 266-275 over the sorted indices, appending to \<^verbatim>\<open>mismatches\<close>.\<close>

fun find_mismatches ::
  "sparse_image \<Rightarrow> sparse_image \<Rightarrow> int list \<Rightarrow> mismatch list \<Rightarrow> mismatch list" where
  "find_mismatches sim_data golden_data [] mismatches = mismatches"
| "find_mismatches sim_data golden_data (idx # idxs) mismatches =
     (let sim_val = dict_get sim_data idx MISSING;
          golden_val = dict_get golden_data idx MISSING
      in find_mismatches sim_data golden_data idxs
           (if sim_val \<noteq> golden_val
            then mismatches @ [\<lparr>index = idx, simulation = sim_val, golden = golden_val\<rparr>]
            else mismatches))"

text \<open>Lines 263-275: the union of the two key sets, sorted, then the loop.\<close>

definition compare_mismatches :: "sparse_image \<Rightarrow> sparse_image \<Rightarrow> mismatch list" where
  "compare_mismatches sim_data golden_data =
     (let all_indices = set (keys sim_data) \<union> set (keys golden_data)
      in find_mismatches sim_data golden_data (sorted_list_of_set all_indices) [])"

text \<open>Lines 278-282: the report of a failed comparison.\<close>

definition mismatch_details :: "mismatch list \<Rightarrow> string" where
  "mismatch_details mismatches =
     foldl (\<lambda>details m.
              details @ ''    ['' @ str_int (index m) @ ''] '' @
              ''Simulation: '' @ ljust 12 (simulation m) @ '' '' @
              ''Golden: '' @ ljust 12 (golden m) @ [LF])
       ([LF] @ ''  '' @ RED @ ''Found '' @ str_nat (length mismatches) @ '' mismatch(es):'' @
        RESET @ [LF])
       mismatches"

text \<open>\<^verbatim>\<open>compare_data\<close> returns the triple (pass, mismatch count, details).\<close>

definition compare_data ::
  "sparse_image option \<Rightarrow> sparse_image option \<Rightarrow> string \<Rightarrow> bool \<times> nat \<times> string" where
  "compare_data sim_data golden_data name =
     (case sim_data of
        None \<Rightarrow> (False, 0, name @ '' simulation output not found'')
      | Some sim \<Rightarrow>
          (case golden_data of
             None \<Rightarrow> (False, 0, name @ '' golden reference not found'')
           | Some gold \<Rightarrow>
               (let mismatches = compare_mismatches sim gold
                in if mismatches \<noteq> []
                   then (False, length mismatches, mismatch_details mismatches)
                   else (True, 0, []))))"

section \<open>Verifying one test case: \<^verbatim>\<open>verify\<close>\<close>

text \<open>Sequencing of calls that may raise: an exception of the first leaves the caller.\<close>

definition bind_result :: "'e + 'a \<Rightarrow> ('a \<Rightarrow> 'e + 'b) \<Rightarrow> 'e + 'b" where
  "bind_result r f = (case r of Inl e \<Rightarrow> Inl e | Inr x \<Rightarrow> f x)"

record verify_result =
  success :: bool
  rf_pass :: bool
  dm_pass :: bool
  rf_mismatches :: nat
  dm_mismatches :: nat
  rf_details :: string
  dm_details :: string

definition files_to_check :: "string list" where
  "files_to_check = [''RF.out'', ''RF.golden'', ''DM.out'', ''DM.golden'']"

text \<open>
  \<^verbatim>\<open>verify\<close> works inside the directory \<^verbatim>\<open>Testbench\<close>, whose files are the argument here.
  Its value is the dictionary it returns; what it prints is not modelled.
\<close>

definition verify :: "filesystem \<Rightarrow> py_exception + verify_result" where
  "verify testbench =
     (let missing_files = filter (\<lambda>filename. testbench filename = None) files_to_check
      in if missing_files \<noteq> []
         then Inr \<lparr>success = False, rf_pass = False, dm_pass = False,
                   rf_mismatches = 0, dm_mismatches = 0, rf_details = [], dm_details = []\<rparr>
         else
           bind_result (parse_file testbench ''RF.out'') (\<lambda>rf_sim.
           bind_result (parse_file testbench ''RF.golden'') (\<lambda>rf_golden.
           bind_result (parse_file testbench ''DM.out'') (\<lambda>dm_sim.
           bind_result (parse_file testbench ''DM.golden'') (\<lambda>dm_golden.
             (let rf = compare_data (fst rf_sim) (fst rf_golden) ''RF'';
                  dm = compare_data (fst dm_sim) (fst dm_golden) ''DM'';
                  total_tests = (2::nat);
                  passed_tests = (if fst rf then 1 else 0) + (if fst dm then 1 else 0);
                  overall = (passed_tests = total_tests)
              in Inr \<lparr>success = overall, rf_pass = fst rf, dm_pass = fst dm,
                        rf_mismatches = fst (snd rf), dm_mismatches = fst (snd dm),
                        rf_details = snd (snd rf), dm_details = snd (snd dm)\<rparr>))))))"

section \<open>The batch run: \<^verbatim>\<open>run_all_testcases\<close>\<close>

text \<open>
  The stages of the pipeline run external tools. Their outcomes are what the run observes
  of the world: whether \<^verbatim>\<open>Pattern/TestCase<i>.dat\<close> exists, what \<^verbatim>\<open>convert_testcase(i)\<close> and
  \<^verbatim>\<open>generate_golden()\<close> return while test case \<open>i\<close> is processed (each catches the failures
  of its tool and returns a boolean), whether the command \<^verbatim>\<open>taskkill\<close> can be launched when
  the simulation of test case \<open>i\<close> starts, what the Vivado run of lines 54-118 comes to for
  test case \<open>i\<close> (every failure of it is caught there and gives \<^verbatim>\<open>False\<close>), what
  \<^verbatim>\<open>find_vivado()\<close> returns, whether \<^verbatim>\<open>Script.tcl\<close> exists, and the files of \<^verbatim>\<open>Testbench\<close>
  at the moment \<^verbatim>\<open>verify()\<close> runs for test case \<open>i\<close>.
\<close>

record world =
  check_testcase_exists :: "int \<Rightarrow> bool"
  convert_testcase :: "int \<Rightarrow> bool"
  generate_golden :: "int \<Rightarrow> bool"
  taskkill_found :: "int \<Rightarrow> bool"
  vivado_run_ok :: "int \<Rightarrow> bool"
  find_vivado :: "string option"
  script_tcl_exists :: bool
  testbench_at :: "int \<Rightarrow> filesystem"

text \<open>
  \<^verbatim>\<open>run_simulation\<close>, lines 42-118. The two calls of \<^verbatim>\<open>taskkill\<close> in lines 51-52 stand
  before the \<^verbatim>\<open>try\<close> of line 61: where the command cannot be launched, \<^verbatim>\<open>subprocess.run\<close>
  raises \<^verbatim>\<open>FileNotFoundError\<close> and \<^verbatim>\<open>run_simulation\<close> does not return. After them it
  returns whether the Vivado run succeeded.
\<close>

definition run_simulation :: "world \<Rightarrow> int \<Rightarrow> py_exception + bool" where
  "run_simulation w i =
     (if \<not> taskkill_found w i then Inl FileNotFoundError else Inr (vivado_run_ok w i))"

record batch_state =
  results :: "(int \<times> verify_result) list"
  sim_failures :: "int list"
  skipped :: "int list"

text \<open>Lines 400-402: nothing is recorded before the loop.\<close>

definition initial_batch_state :: batch_state where
  "initial_batch_state = \<lparr>results = [], sim_failures = [], skipped = []\<rparr>"

text \<open>The body of the loop of lines 404-430 for test case \<open>i\<close>.\<close>

definition run_testcase :: "world \<Rightarrow> int \<Rightarrow> batch_state \<Rightarrow> py_exception + batch_state" where
  "run_testcase w i st =
     (if \<not> check_testcase_exists w i then Inr (st\<lparr>skipped := skipped st @ [i]\<rparr>)
      else if \<not> convert_testcase w i then Inr (st\<lparr>skipped := skipped st @ [i]\<rparr>)
      else if \<not> generate_golden w i then Inr (st\<lparr>skipped := skipped st @ [i]\<rparr>)
      else bind_result (run_simulation w i)
             (\<lambda>simulated.
                if \<not> simulated then Inr (st\<lparr>sim_failures := sim_failures st @ [i]\<rparr>)
                else bind_result (verify (testbench_at w i))
                       (\<lambda>result. Inr (st\<lparr>results := AList.update i result (results st)\<rparr>))))"

fun batch_loop :: "world \<Rightarrow> int list \<Rightarrow> batch_state \<Rightarrow> py_exception + batch_state" where
  "batch_loop w [] st = Inr st"
| "batch_loop w (i # ids) st =
     (case run_testcase w i st of
        Inl e \<Rightarrow> Inl e
      | Inr st' \<Rightarrow> batch_loop w ids st')"

text \<open>\<^verbatim>\<open>range(1, 13)\<close>.\<close>

definition testcase_range :: "int list" where
  "testcase_range = [1..12]"

text \<open>The loop of lines 439-459, as far as it counts \<^verbatim>\<open>passed_count\<close>.\<close>

fun count_passed :: "batch_state \<Rightarrow> int list \<Rightarrow> nat \<Rightarrow> nat" where
  "count_passed st [] passed_count = passed_count"
| "count_passed st (i # ids) passed_count =
     (if i \<in> set (skipped st) then count_passed st ids passed_count
      else if i \<in> set (sim_failures st) then count_passed st ids passed_count
      else (case map_of (results st) i of
              None \<Rightarrow> count_passed st ids passed_count
            | Some r \<Rightarrow> count_passed st ids (if success r then passed_count + 1 else passed_count)))"

text \<open>Lines 476-492: the value returned after the summary.\<close>

definition batch_verdict :: "batch_state \<Rightarrow> bool" where
  "batch_verdict st =
     (let passed_count = count_passed st testcase_range 0;
          total_run = length (results st)
      in if total_run = 0 then False
         else passed_count = total_run \<and> sim_failures st = [])"

text \<open>\<^verbatim>\<open>sys.exit(n)\<close> raises \<^verbatim>\<open>SystemExit\<close>.\<close>

definition run_all_testcases :: "world \<Rightarrow> py_exception + bool" where
  "run_all_testcases w =
     (if find_vivado w = None then Inl (SystemExit 1)
      else if \<not> script_tcl_exists w then Inl (SystemExit 1)
      else bind_result (batch_loop w testcase_range initial_batch_state)
             (\<lambda>st. Inr (batch_verdict st)))"

section \<open>The command line: \<^verbatim>\<open>main\<close>\<close>

text \<open>
  What \<^verbatim>\<open>input()\<close> delivers: a line, or a keyboard interrupt while it waits. When the events
  are used up the standard input is at its end and \<^verbatim>\<open>input()\<close> raises \<^verbatim>\<open>EOFError\<close>.
\<close>

datatype input_event = Line string | Interrupt

text \<open>How one pass through the \<^verbatim>\<open>try\<close> of lines 515-530 ends when nothing is raised.\<close>

datatype prompt_step = Break int | Continue string

definition not_found_message :: "int \<Rightarrow> string" where
  "not_found_message testcase_num =
     RED @ ''TestCase'' @ str_int testcase_num @ ''.dat not found. Please choose another.'' @ RESET"

definition range_message :: string where
  "range_message = RED @ ''Please enter a number between 1 and 12.'' @ RESET"

definition invalid_message :: string where
  "invalid_message = RED @ ''Invalid input. Please enter a number or '' @ [CHR 0x27] @ ''all'' @
     [CHR 0x27] @ ''.'' @ RESET"

definition cancelled_message :: string where
  "cancelled_message = [LF] @ YELLOW @ ''Operation cancelled by user.'' @ RESET"

definition prompt_try :: "world \<Rightarrow> string \<Rightarrow> py_exception + prompt_step" where
  "prompt_try w answer =
     (let testcase_input = lower (strip answer)
      in if testcase_input = ''all''
         then bind_result (run_all_testcases w)
                (\<lambda>success. Inl (SystemExit (if success then 0 else 1)))
         else bind_result (py_int testcase_input)
                (\<lambda>testcase_num.
                   if 1 \<le> testcase_num \<and> testcase_num \<le> 12
                   then (if check_testcase_exists w testcase_num
                         then Inr (Break testcase_num)
                         else Inr (Continue (not_found_message testcase_num)))
                   else Inr (Continue range_message)))"

text \<open>How the \<^verbatim>\<open>while True\<close> loop of lines 514-535 is left without an exception.\<close>

datatype prompt_outcome = Chosen int | Returned

definition printing :: "string \<Rightarrow> 'a \<times> string list \<Rightarrow> 'a \<times> string list" where
  "printing msg r = (fst r, msg # snd r)"

text \<open>
  The loop, with the messages its own \<^verbatim>\<open>print\<close> statements write (lines 528-534). The
  handlers of lines 531 and 533 catch \<^verbatim>\<open>ValueError\<close> and \<^verbatim>\<open>KeyboardInterrupt\<close> raised
  anywhere in the \<^verbatim>\<open>try\<close>; every other exception leaves the loop.
\<close>

fun prompt_loop ::
  "world \<Rightarrow> input_event list \<Rightarrow> (py_exception + prompt_outcome) \<times> string list" where
  "prompt_loop w [] = (Inl EOFError, [])"
| "prompt_loop w (ev # evs) =
     (case (case ev of Interrupt \<Rightarrow> Inl KeyboardInterrupt | Line answer \<Rightarrow> prompt_try w answer) of
        Inr (Break testcase_num) \<Rightarrow> (Inr (Chosen testcase_num), [])
      | Inr (Continue msg) \<Rightarrow> printing msg (prompt_loop w evs)
      | Inl e \<Rightarrow>
          if e = ValueError then printing invalid_message (prompt_loop w evs)
          else if e = KeyboardInterrupt then (Inr Returned, [cancelled_message])
          else (Inl e, []))"

text \<open>
  Lines 500-580, the body of the outer \<^verbatim>\<open>try\<close>. In the single mode a missing Vivado or a
  simulation that returns \<^verbatim>\<open>False\<close> does not stop the run: \<^verbatim>\<open>verify()\<close> is called all the
  same. An exception of \<^verbatim>\<open>run_simulation\<close> leaves the body.
\<close>

definition main_try :: "world \<Rightarrow> input_event list \<Rightarrow> py_exception + unit" where
  "main_try w evs =
     bind_result (fst (prompt_loop w evs))
       (\<lambda>outcome.
          case outcome of
            Returned \<Rightarrow> Inr ()
          | Chosen testcase_num \<Rightarrow>
              if \<not> convert_testcase w testcase_num then Inl (SystemExit 1)
              else if \<not> generate_golden w testcase_num then Inl (SystemExit 1)
              else bind_result
                     (case find_vivado w of
                        None \<Rightarrow> Inr ()
                      | Some vivado_path \<Rightarrow>
                          if \<not> script_tcl_exists w then Inl (SystemExit 1)
                          else bind_result (run_simulation w testcase_num)
                                 (\<lambda>simulated. Inr ()))
                     (\<lambda>stage2.
                        bind_result (verify (testbench_at w testcase_num))
                          (\<lambda>result. Inl (SystemExit (if success result then 0 else 1)))))"

text \<open>
  Lines 582-589: the handlers of the outer \<^verbatim>\<open>try\<close> turn a \<^verbatim>\<open>KeyboardInterrupt\<close> and every
  \<^verbatim>\<open>Exception\<close> into \<^verbatim>\<open>sys.exit(1)\<close>; a \<^verbatim>\<open>SystemExit\<close> passes through them.
\<close>

definition main_except :: "py_exception \<Rightarrow> nat" where
  "main_except e =
     (case e of
        SystemExit code \<Rightarrow> code
      | KeyboardInterrupt \<Rightarrow> 1
      | IndexError \<Rightarrow> 1
      | ValueError \<Rightarrow> 1
      | EOFError \<Rightarrow> 1
      | FileNotFoundError \<Rightarrow> 1)"

text \<open>The exit status of the process: 0 when \<^verbatim>\<open>main\<close> returns.\<close>

definition main :: "world \<Rightarrow> input_event list \<Rightarrow> nat" where
  "main w evs = (case main_try w evs of Inr u \<Rightarrow> 0 | Inl e \<Rightarrow> main_except e)"

section \<open>Notions used in the statements\<close>

text \<open>Characters that no other character is mapped to by \<^const>\<open>lower_char\<close> and that it leaves alone.\<close>

definition caseless :: "char \<Rightarrow> bool" where
  "caseless d = (py_ord d < 65 \<or> (90 < py_ord d \<and> py_ord d < 97) \<or> (122 < py_ord d \<and> py_ord d < 192))"

text \<open>Every value stored in an image is its own lower-case form.\<close>

definition lowercase_values :: "sparse_image \<Rightarrow> bool" where
  "lowercase_values d = (\<forall>k v. map_of d k = Some v \<longrightarrow> lower v = v)"

text \<open>The text between the opening bracket and the first closing bracket, and the text
  between the first and the second closing bracket.\<close>

definition index_text :: "string \<Rightarrow> string" where
  "index_text line = drop 1 (takeWhile (\<lambda>c. c \<noteq> CHR '']'') line)"

definition value_text :: "string \<Rightarrow> string" where
  "value_text line =
     takeWhile (\<lambda>c. c \<noteq> CHR '']'') (drop 1 (dropWhile (\<lambda>c. c \<noteq> CHR '']'') line))"

text \<open>A data line with no closing bracket or with an index that \<^verbatim>\<open>int\<close> rejects.\<close>

definition malformed_line :: "string \<Rightarrow> bool" where
  "malformed_line line =
     (startswith line ''['' \<and>
      (CHR '']'' \<notin> set line \<or> py_int (index_text line) = Inl ValueError))"

text \<open>A data line with an index and a closing bracket, and nothing but blanks after it.\<close>

definition missing_value_line :: "string \<Rightarrow> int \<Rightarrow> bool" where
  "missing_value_line line idx =
     (startswith line ''['' \<and> CHR '']'' \<in> set line \<and> py_int (index_text line) = Inr idx \<and>
      strip (value_text line) = [])"

text \<open>
  The outcome of one test case as the specification defines it from the stages
  Locate, Convert, GenerateGolden, Simulate and Verify: skipped when one of the first three
  fails, simulation-failed when they succeed and the Vivado run fails, verified otherwise.
\<close>

definition skipped_case :: "world \<Rightarrow> int \<Rightarrow> bool" where
  "skipped_case w i =
     (\<not> check_testcase_exists w i \<or> \<not> convert_testcase w i \<or> \<not> generate_golden w i)"

definition sim_failed_case :: "world \<Rightarrow> int \<Rightarrow> bool" where
  "sim_failed_case w i =
     (check_testcase_exists w i \<and> convert_testcase w i \<and> generate_golden w i \<and>
      \<not> vivado_run_ok w i)"

definition verified_case :: "world \<Rightarrow> int \<Rightarrow> bool" where
  "verified_case w i =
     (check_testcase_exists w i \<and> convert_testcase w i \<and> generate_golden w i \<and>
      vivado_run_ok w i)"

text \<open>
  An answer at the prompt that is not accepted: after trimming and lowering it is not
  \<^verbatim>\<open>all\<close>, and it is no integer, or an integer outside 1..12, or the number of a test case
  whose file does not exist. The message that the answer gets.
\<close>

definition invalid_input :: "world \<Rightarrow> string \<Rightarrow> bool" where
  "invalid_input w answer =
     (lower (strip answer) \<noteq> ''all'' \<and>
      (case py_int (lower (strip answer)) of
         Inl e \<Rightarrow> True
       | Inr n \<Rightarrow> n < 1 \<or> 12 < n \<or> \<not> check_testcase_exists w n))"

definition invalid_input_message :: "string \<Rightarrow> string" where
  "invalid_input_message answer =
     (case py_int (lower (strip answer)) of
        Inl e \<Rightarrow> invalid_message
      | Inr n \<Rightarrow> if 1 \<le> n \<and> n \<le> 12 then not_found_message n else range_message)"

section \<open>Example inputs\<close>

definition example_A :: string where
  "example_A = ''[0] 1'' @ [LF] @ ''[2] 3''"

definition example_B :: string where
  "example_B = ''[0] 1'' @ [LF] @ ''[1] 2''"

definition example_files :: filesystem where
  "example_files = [''A'' \<mapsto> example_A, ''B'' \<mapsto> example_B]"

definition example_lower :: string where
  "example_lower = ''[0] 0000000a'' @ [LF] @ ''[1] ff''"

definition example_upper :: string where
  "example_upper = ''[0] 0000000A'' @ [LF] @ ''[1] ff''"

definition example_case_files :: filesystem where
  "example_case_files = [''A'' \<mapsto> example_lower, ''B'' \<mapsto> example_upper]"

definition example_testbench :: filesystem where
  "example_testbench =
     [''RF.out'' \<mapsto> ''[0] 1'', ''RF.golden'' \<mapsto> ''[0] 1'',
      ''DM.out'' \<mapsto> ''[0] 1'', ''DM.golden'' \<mapsto> ''[0] 2'']"

definition example_incomplete_testbench :: filesystem where
  "example_incomplete_testbench =
     [''RF.out'' \<mapsto> ''[0] 1'', ''RF.golden'' \<mapsto> ''[0] 2'', ''DM.out'' \<mapsto> ''[0] 1'']"

definition example_malformed :: string where
  "example_malformed = ''[0] 1'' @ [LF] @ ''[x] 2'' @ [LF] @ ''[7'' @ [LF] @ ''[5]'' @ [LF] @ ''[1] 2''"

definition example_malformed_files :: filesystem where
  "example_malformed_files = [''RF.out'' \<mapsto> example_malformed]"

definition example_missing_value_files :: filesystem where
  "example_missing_value_files = [''RF.out'' \<mapsto> ''[5]'']"

definition example_artifact :: string where
  "example_artifact = ''[0] 1''"

definition passing_testbench :: filesystem where
  "passing_testbench =
     [''RF.out'' \<mapsto> example_artifact, ''RF.golden'' \<mapsto> example_artifact,
      ''DM.out'' \<mapsto> example_artifact, ''DM.golden'' \<mapsto> example_artifact]"

text \<open>
  A world in which test case 1 has no input file, the conversion of test case 5 fails, the
  golden generation of test case 7 fails, and every other test case is simulated and verified
  with matching artifacts.
\<close>

definition skipping_world :: world where
  "skipping_world =
     \<lparr>check_testcase_exists = (\<lambda>i. i \<noteq> 1),
      convert_testcase = (\<lambda>i. i \<noteq> 5),
      generate_golden = (\<lambda>i. i \<noteq> 7),
      taskkill_found = (\<lambda>i. True),
      vivado_run_ok = (\<lambda>i. True),
      find_vivado = Some ''vivado'',
      script_tcl_exists = True,
      testbench_at = (\<lambda>i. passing_testbench)\<rparr>"

definition example_world :: world where
  "example_world =
     \<lparr>check_testcase_exists = (\<lambda>i. i = 2),
      convert_testcase = (\<lambda>i. True),
      generate_golden = (\<lambda>i. True),
      taskkill_found = (\<lambda>i. True),
      vivado_run_ok = (\<lambda>i. True),
      find_vivado = Some ''vivado'',
      script_tcl_exists = True,
      testbench_at = (\<lambda>i. passing_testbench)\<rparr>"

text \<open>
  A world in which every stage of every test case succeeds, on a machine that has no
  command \<^verbatim>\<open>taskkill\<close>.
\<close>

definition no_taskkill_world :: world where
  "no_taskkill_world =
     \<lparr>check_testcase_exists = (\<lambda>i. True),
      convert_testcase = (\<lambda>i. True),
      generate_golden = (\<lambda>i. True),
      taskkill_found = (\<lambda>i. False),
      vivado_run_ok = (\<lambda>i. True),
      find_vivado = Some ''vivado'',
      script_tcl_exists = True,
      testbench_at = (\<lambda>i. passing_testbench)\<rparr>"

section \<open>Properties of the string functions\<close>

subsection \<open>Characters\<close>

lemma py_ord_lower_char:
  "py_ord (lower_char c) = (if isupper c then py_ord c + 32 else py_ord c)"
  by (simp add: lower_char_def py_chr_def py_ord_def isupper_def)

lemma char_eq_ord: "(c = d) = (py_ord c = py_ord d)"
  by (simp add: py_ord_def)

lemma isspace_lower_char: "isspace (lower_char c) = isspace c"
  by (auto simp add: isspace_def py_ord_lower_char isupper_def)

lemma int_space_lower_char: "int_space (lower_char c) = int_space c"
  by (auto simp add: int_space_def py_ord_lower_char isupper_def)

lemma isdigit_lower_char: "isdigit (lower_char c) = isdigit c"
  by (auto simp add: isdigit_def py_ord_lower_char isupper_def)

lemma lower_char_digit: "isdigit c \<Longrightarrow> lower_char c = c"
  by (auto simp add: isdigit_def lower_char_def isupper_def)

lemma lower_char_idem: "lower_char (lower_char c) = lower_char c"
  by (auto simp add: char_eq_ord py_ord_lower_char isupper_def)

lemma lower_char_eq_caseless: "caseless d \<Longrightarrow> (lower_char c = d) = (c = d)"
  by (auto simp add: caseless_def char_eq_ord py_ord_lower_char isupper_def)

lemma lower_char_caseless: "caseless d \<Longrightarrow> lower_char d = d"
  by (simp add: lower_char_eq_caseless)

lemma caseless_chars:
  "caseless CR" "caseless LF" "caseless (CHR '']'')" "caseless (CHR ''['')" "caseless (CHR ''/'')"
  "caseless (CHR ''_'')" "caseless (CHR ''+'')" "caseless (CHR ''-'')"
  by (simp_all add: caseless_def py_ord_def CR_def LF_def)

lemma lower_char_not_M: "lower_char c \<noteq> CHR ''M''"
proof -
  have "py_ord (lower_char c) \<noteq> 77"
    by (auto simp add: py_ord_lower_char isupper_def)
  moreover have "py_ord (CHR ''M'') = 77"
    by (simp add: py_ord_def)
  ultimately show ?thesis
    by (auto simp add: char_eq_ord)
qed

subsection \<open>Strings\<close>

lemma lower_idem: "lower (lower s) = lower s"
  by (simp add: lower_def lower_char_idem)

lemma lower_not_MISSING: "lower s \<noteq> MISSING"
  by (cases s) (auto simp add: lower_def MISSING_def lower_char_not_M)

lemma dropWhile_lower:
  assumes "\<And>c. P (lower_char c) = P c"
  shows "dropWhile P (lower s) = lower (dropWhile P s)"
  using assms by (induction s) (simp_all add: lower_def)

lemma strip_lower: "strip (lower s) = lower (strip s)"
proof -
  have "rev (lower s) = lower (rev s)" for s
    by (simp add: lower_def rev_map)
  then show ?thesis
    by (simp add: strip_def dropWhile_lower isspace_lower_char)
qed

lemma lower_eq_Nil: "(lower s = []) = (s = [])"
  by (simp add: lower_def)

lemma startswith_lower_slashes: "startswith (lower s) ''//'' = startswith s ''//''"
  by (cases s; cases "tl s")
     (auto simp add: startswith_def lower_def lower_char_eq_caseless caseless_chars)

lemma startswith_lower_bracket: "startswith (lower s) ''['' = startswith s ''[''"
  by (cases s) (auto simp add: startswith_def lower_def lower_char_eq_caseless caseless_chars)

lemma split_lower: "caseless sep \<Longrightarrow> split sep (lower s) = map lower (split sep s)"
proof (induction s)
  case Nil
  then show ?case by (simp add: lower_def)
next
  case (Cons c cs)
  then have "split sep (map lower_char cs) = map lower (split sep cs)"
    by (simp add: lower_def)
  with Cons.prems show ?case
    by (auto simp add: lower_def lower_char_eq_caseless split: list.splits)
qed

lemma universal_newlines_lower: "universal_newlines (lower s) = lower (universal_newlines s)"
  by (induction s rule: universal_newlines.induct)
     (auto simp add: lower_def lower_char_eq_caseless lower_char_caseless caseless_chars)

lemma keep_lines_lower: "keep_lines (lower s) = map lower (keep_lines s)"
proof (induction s)
  case Nil
  then show ?case by (simp add: lower_def)
next
  case (Cons c cs)
  then have "keep_lines (map lower_char cs) = map lower (keep_lines cs)"
    by (simp add: lower_def)
  then show ?case
    by (auto simp add: lower_def lower_char_eq_caseless lower_char_caseless caseless_chars
          split: list.splits)
qed

lemma file_lines_lower: "file_lines (lower content) = map lower (file_lines content)"
  by (simp add: file_lines_def universal_newlines_lower keep_lines_lower)

subsection \<open>\<^verbatim>\<open>int\<close>\<close>

lemma digits_ok_lower: "digits_ok (lower s) = digits_ok s"
  by (induction s rule: digits_ok.induct)
     (auto simp add: lower_def isdigit_lower_char lower_char_eq_caseless caseless_chars)

lemma filter_isdigit_lower: "filter isdigit (lower s) = filter isdigit s"
  by (induction s) (auto simp add: lower_def isdigit_lower_char lower_char_digit)

lemma hd_lower_caseless:
  "caseless d \<Longrightarrow> s \<noteq> [] \<Longrightarrow> (hd (lower s) = d) = (hd s = d)"
  by (cases s) (simp_all add: lower_def lower_char_eq_caseless)

lemma tl_lower: "tl (lower s) = lower (tl s)"
  by (cases s) (simp_all add: lower_def)

lemma py_int_lower: "py_int (lower s) = py_int s"
proof -
  define t where "t = rev (dropWhile int_space (rev (dropWhile int_space s)))"
  have t: "rev (dropWhile int_space (rev (dropWhile int_space (lower s)))) = lower t"
    by (simp add: t_def dropWhile_lower int_space_lower_char)
       (simp add: lower_def rev_map dropWhile_lower [unfolded lower_def] int_space_lower_char)
  show ?thesis
    unfolding py_int_def t t_def [symmetric]
    by (cases "t = []")
       (simp_all add: Let_def lower_eq_Nil hd_lower_caseless caseless_chars tl_lower
          digits_ok_lower filter_isdigit_lower)
qed

lemma py_int_raises: "py_int s = Inl e \<Longrightarrow> e = ValueError"
  by (auto simp add: py_int_def Let_def split: if_splits)


subsection \<open>Parsing never raises\<close>

lemma parse_entry_raises: "parse_entry line data = Inl e \<Longrightarrow> e = IndexError \<or> e = ValueError"
  by (auto simp add: parse_entry_def split: list.splits sum.splits dest: py_int_raises)

lemma parse_line_returns: "\<exists>data out. parse_line filename raw st = Inr (data, out)"
proof (cases "parse_entry (strip raw) (fst st)")
  case (Inl e)
  with parse_entry_raises [OF Inl] show ?thesis
    by (cases st) (auto simp add: parse_line_def Let_def)
next
  case (Inr data)
  then show ?thesis
    by (cases st) (auto simp add: parse_line_def Let_def)
qed

lemma parse_loop_returns: "\<exists>data out. parse_loop filename raws st = Inr (data, out)"
proof (induction raws arbitrary: st)
  case Nil
  then show ?case by (cases st) simp
next
  case (Cons raw raws)
  obtain data out where "parse_line filename raw st = Inr (data, out)"
    using parse_line_returns by blast
  with Cons.IH [of "(data, out)"] show ?case by simp
qed

lemma parse_loop_append:
  "parse_loop filename (xs @ ys) st =
     (case parse_loop filename xs st of Inl e \<Rightarrow> Inl e | Inr st' \<Rightarrow> parse_loop filename ys st')"
  by (induction xs arbitrary: st) (simp_all split: sum.splits)

subsection \<open>What is printed does not influence what is stored\<close>

lemma parse_line_out:
  "parse_line filename raw (data, out) =
     (case parse_line filename raw (data, []) of
        Inl e \<Rightarrow> Inl e
      | Inr st \<Rightarrow> Inr (fst st, out @ snd st))"
  by (simp add: parse_line_def Let_def split: sum.splits)

lemma parse_loop_out:
  "parse_loop filename raws (data, out) =
     (case parse_loop filename raws (data, []) of
        Inl e \<Rightarrow> Inl e
      | Inr st \<Rightarrow> Inr (fst st, out @ snd st))"
proof (induction raws arbitrary: data out)
  case Nil
  then show ?case by simp
next
  case (Cons raw raws)
  obtain d1 o1 where step: "parse_line filename raw (data, []) = Inr (d1, o1)"
    using parse_line_returns by blast
  obtain d2 o2 where rest: "parse_loop filename raws (d1, []) = Inr (d2, o2)"
    using parse_loop_returns by blast
  have "parse_line filename raw (data, out) = Inr (d1, out @ o1)"
    using step by (subst parse_line_out) simp
  moreover have "parse_loop filename raws (d1, out @ o1) = Inr (d2, out @ o1 @ o2)"
    using rest by (subst Cons.IH) simp
  moreover have "parse_loop filename raws (d1, o1) = Inr (d2, o1 @ o2)"
    using rest by (subst Cons.IH) simp
  ultimately show ?case
    using step by simp
qed

subsection \<open>Letter case\<close>

lemma drop_lower: "drop n (lower p) = lower (drop n p)"
  by (simp add: lower_def drop_map)

lemma parse_entry_lower: "parse_entry (lower line) data = parse_entry line data"
proof (cases "split (CHR '']'') line")
  case Nil
  then show ?thesis
    by (simp add: parse_entry_def split_lower caseless_chars)
next
  case (Cons p0 ps)
  then show ?thesis
    by (cases ps)
       (simp_all add: parse_entry_def split_lower caseless_chars drop_lower py_int_lower
          strip_lower lower_idem split: sum.splits)
qed

lemma parse_line_lower:
  "map_sum id fst (parse_line f1 (lower raw) (data, o1)) =
   map_sum id fst (parse_line f2 raw (data, o2))"
  by (simp add: parse_line_def Let_def strip_lower lower_eq_Nil startswith_lower_slashes
        startswith_lower_bracket parse_entry_lower split: sum.splits)

lemma parse_loop_lower:
  "map_sum id fst (parse_loop f1 (map lower raws) (data, o1)) =
   map_sum id fst (parse_loop f2 raws (data, o2))"
proof (induction raws arbitrary: data o1 o2)
  case Nil
  then show ?case by simp
next
  case (Cons raw raws)
  obtain d1 p1 where s1: "parse_line f1 (lower raw) (data, o1) = Inr (d1, p1)"
    using parse_line_returns by blast
  obtain d2 p2 where s2: "parse_line f2 raw (data, o2) = Inr (d2, p2)"
    using parse_line_returns by blast
  from parse_line_lower [of f1 raw data o1 f2 o2] s1 s2 have "d1 = d2"
    by simp
  with s1 s2 Cons.IH [of d2 p1 p2] show ?case
    by simp
qed

lemma parse_loop_caseless:
  assumes "lower a = lower b"
  shows "map_sum id fst (parse_loop f1 (file_lines a) ([], [])) =
         map_sum id fst (parse_loop f2 (file_lines b) ([], []))"
proof -
  have "map_sum id fst (parse_loop f1 (file_lines a) ([], [])) =
        map_sum id fst (parse_loop f1 (file_lines (lower a)) ([], []))"
    unfolding file_lines_lower by (rule parse_loop_lower [symmetric])
  also have "\<dots> = map_sum id fst (parse_loop f2 (file_lines b) ([], []))"
    unfolding assms file_lines_lower by (rule parse_loop_lower)
  finally show ?thesis .
qed

subsection \<open>Stored values are in lower case\<close>

lemma lowercase_values_Nil: "lowercase_values []"
  by (simp add: lowercase_values_def)

lemma parse_entry_lowercase:
  "lowercase_values data \<Longrightarrow> parse_entry line data = Inr data' \<Longrightarrow> lowercase_values data'"
  by (auto simp add: parse_entry_def lowercase_values_def update_conv' lower_idem
        split: list.splits sum.splits if_splits)

lemma parse_line_lowercase:
  "lowercase_values data \<Longrightarrow> parse_line filename raw (data, out) = Inr (data', out') \<Longrightarrow>
   lowercase_values data'"
  by (auto simp add: parse_line_def Let_def split: if_splits sum.splits
        dest: parse_entry_lowercase)

lemma parse_loop_lowercase:
  "lowercase_values data \<Longrightarrow> parse_loop filename raws (data, out) = Inr (data', out') \<Longrightarrow>
   lowercase_values data'"
proof (induction raws arbitrary: data out)
  case Nil
  then show ?case by simp
next
  case (Cons raw raws)
  obtain d1 o1 where step: "parse_line filename raw (data, out) = Inr (d1, o1)"
    using parse_line_returns by blast
  with Cons.prems have "lowercase_values d1"
    by (blast intro: parse_line_lowercase)
  with Cons.IH [of d1 o1] Cons.prems(2) step show ?case
    by simp
qed

lemma lowercase_values_not_MISSING:
  "lowercase_values d \<Longrightarrow> map_of d k = Some v \<Longrightarrow> v \<noteq> MISSING"
  using lower_not_MISSING [of v] by (auto simp add: lowercase_values_def)


subsection \<open>parse_file\<close>

lemma parse_file_missing: "fs filename = None \<Longrightarrow> parse_file fs filename = Inr (None, [])"
  by (simp add: parse_file_def)

lemma parse_file_exists:
  assumes "fs filename = Some content"
  shows "\<exists>data out. parse_file fs filename = Inr (Some data, out) \<and>
           parse_loop filename (file_lines content) ([], []) = Inr (data, out)"
proof -
  obtain data out where "parse_loop filename (file_lines content) ([], []) = Inr (data, out)"
    using parse_loop_returns by blast
  with assms show ?thesis
    by (simp add: parse_file_def)
qed

lemma parse_file_returns: "\<exists>r. parse_file fs filename = Inr r"
  using parse_file_missing [of fs filename] parse_file_exists [of fs filename]
  by (cases "fs filename") auto

lemma parse_file_lowercase:
  assumes "parse_file fs filename = Inr (Some data, out)"
  shows "lowercase_values data"
proof -
  from assms obtain content where c: "fs filename = Some content"
    by (cases "fs filename") (auto simp add: parse_file_def)
  from parse_file_exists [of fs filename content, OF c] assms
  have "parse_loop filename (file_lines content) ([], []) = Inr (data, out)"
    by auto
  with lowercase_values_Nil show ?thesis
    by (rule parse_loop_lowercase)
qed

subsection \<open>compare_data\<close>

lemma keys_iff: "(i \<in> set (keys d)) = (map_of d i \<noteq> None)"
  by (simp add: keys_def map_of_eq_None_iff)

lemma find_mismatches_eq:
  "find_mismatches a b idxs ms =
     ms @ map (\<lambda>i. \<lparr>index = i, simulation = dict_get a i MISSING, golden = dict_get b i MISSING\<rparr>)
            (filter (\<lambda>i. dict_get a i MISSING \<noteq> dict_get b i MISSING) idxs)"
  by (induction idxs arbitrary: ms) (simp_all add: Let_def)

lemma compare_mismatches_eq:
  "compare_mismatches a b =
     map (\<lambda>i. \<lparr>index = i, simulation = dict_get a i MISSING, golden = dict_get b i MISSING\<rparr>)
       (filter (\<lambda>i. dict_get a i MISSING \<noteq> dict_get b i MISSING)
          (sorted_list_of_set (set (keys a) \<union> set (keys b))))"
  by (simp add: compare_mismatches_def find_mismatches_eq)

lemma compare_mismatches_index:
  "map index (compare_mismatches a b) =
     filter (\<lambda>i. dict_get a i MISSING \<noteq> dict_get b i MISSING)
       (sorted_list_of_set (set (keys a) \<union> set (keys b)))"
  by (simp add: compare_mismatches_eq comp_def)

lemma compare_mismatches_fields:
  "m \<in> set (compare_mismatches a b) \<Longrightarrow>
     simulation m = dict_get a (index m) MISSING \<and> golden m = dict_get b (index m) MISSING"
  by (auto simp add: compare_mismatches_eq)

lemma dict_get_differs:
  assumes "lowercase_values a" and "lowercase_values b"
  shows "(dict_get a i MISSING \<noteq> dict_get b i MISSING) = (map_of a i \<noteq> map_of b i)"
  using lowercase_values_not_MISSING [OF assms(1), of i]
        lowercase_values_not_MISSING [OF assms(2), of i]
  by (auto simp add: dict_get_def split: option.splits)

lemma compare_data_present:
  "compare_data (Some a) (Some b) name =
     (compare_mismatches a b = [], length (compare_mismatches a b),
      if compare_mismatches a b = [] then [] else mismatch_details (compare_mismatches a b))"
  by (simp add: compare_data_def Let_def)

lemma compare_mismatches_same: "compare_mismatches a a = []"
  by (simp add: compare_mismatches_eq)

lemma example_two_mismatches:
  "compare_mismatches [(0, ''1''), (2, ''3'')] [(0, ''1''), (1, ''2'')] =
     [\<lparr>index = 1, simulation = ''MISSING'', golden = ''2''\<rparr>,
      \<lparr>index = 2, simulation = ''3'', golden = ''MISSING''\<rparr>]"
  by code_simp

subsection \<open>verify\<close>

lemma verify_missing:
  assumes "filename \<in> set files_to_check" and "testbench filename = None"
  shows "verify testbench =
           Inr \<lparr>success = False, rf_pass = False, dm_pass = False,
                 rf_mismatches = 0, dm_mismatches = 0, rf_details = [], dm_details = []\<rparr>"
proof -
  have "filter (\<lambda>filename. testbench filename = None) files_to_check \<noteq> []"
    using assms by (auto simp add: filter_empty_conv)
  then show ?thesis
    by (simp add: verify_def Let_def)
qed

lemma verify_present:
  assumes "\<forall>filename \<in> set files_to_check. testbench filename \<noteq> None"
  shows "\<exists>rf_sim o1 rf_golden o2 dm_sim o3 dm_golden o4.
           parse_file testbench ''RF.out'' = Inr (Some rf_sim, o1) \<and>
           parse_file testbench ''RF.golden'' = Inr (Some rf_golden, o2) \<and>
           parse_file testbench ''DM.out'' = Inr (Some dm_sim, o3) \<and>
           parse_file testbench ''DM.golden'' = Inr (Some dm_golden, o4) \<and>
           verify testbench =
             Inr \<lparr>success = (compare_mismatches rf_sim rf_golden = [] \<and>
                              compare_mismatches dm_sim dm_golden = []),
                   rf_pass = fst (compare_data (Some rf_sim) (Some rf_golden) ''RF''),
                   dm_pass = fst (compare_data (Some dm_sim) (Some dm_golden) ''DM''),
                   rf_mismatches = fst (snd (compare_data (Some rf_sim) (Some rf_golden) ''RF'')),
                   dm_mismatches = fst (snd (compare_data (Some dm_sim) (Some dm_golden) ''DM'')),
                   rf_details = snd (snd (compare_data (Some rf_sim) (Some rf_golden) ''RF'')),
                   dm_details = snd (snd (compare_data (Some dm_sim) (Some dm_golden) ''DM''))\<rparr>"
proof -
  from assms obtain c1 c2 c3 c4 where c:
    "testbench ''RF.out'' = Some c1" "testbench ''RF.golden'' = Some c2"
    "testbench ''DM.out'' = Some c3" "testbench ''DM.golden'' = Some c4"
    by (auto simp add: files_to_check_def)
  obtain d1 o1 where p1: "parse_file testbench ''RF.out'' = Inr (Some d1, o1)"
    using parse_file_exists [of testbench "''RF.out''" c1, OF c(1)] by blast
  obtain d2 o2 where p2: "parse_file testbench ''RF.golden'' = Inr (Some d2, o2)"
    using parse_file_exists [of testbench "''RF.golden''" c2, OF c(2)] by blast
  obtain d3 o3 where p3: "parse_file testbench ''DM.out'' = Inr (Some d3, o3)"
    using parse_file_exists [of testbench "''DM.out''" c3, OF c(3)] by blast
  obtain d4 o4 where p4: "parse_file testbench ''DM.golden'' = Inr (Some d4, o4)"
    using parse_file_exists [of testbench "''DM.golden''" c4, OF c(4)] by blast
  have none: "filter (\<lambda>filename. testbench filename = None) files_to_check = []"
    using assms by (simp add: filter_empty_conv)
  have "verify testbench =
      Inr \<lparr>success = (compare_mismatches d1 d2 = [] \<and> compare_mismatches d3 d4 = []),
            rf_pass = fst (compare_data (Some d1) (Some d2) ''RF''),
            dm_pass = fst (compare_data (Some d3) (Some d4) ''DM''),
            rf_mismatches = fst (snd (compare_data (Some d1) (Some d2) ''RF'')),
            dm_mismatches = fst (snd (compare_data (Some d3) (Some d4) ''DM'')),
            rf_details = snd (snd (compare_data (Some d1) (Some d2) ''RF'')),
            dm_details = snd (snd (compare_data (Some d3) (Some d4) ''DM''))\<rparr>"
    unfolding verify_def none
    by (simp add: Let_def bind_result_def p1 p2 p3 p4 compare_data_present)
  with p1 p2 p3 p4 show ?thesis
    by blast
qed

lemma verify_returns: "\<exists>r. verify testbench = Inr r"
proof (cases "\<forall>filename \<in> set files_to_check. testbench filename \<noteq> None")
  case True
  from verify_present [OF True] show ?thesis by blast
next
  case False
  then obtain filename where "filename \<in> set files_to_check" "testbench filename = None"
    by blast
  from verify_missing [of filename testbench, OF this] show ?thesis by blast
qed

subsection \<open>The parts of a data line\<close>

lemma split_unfold:
  "split sep s =
     takeWhile (\<lambda>c. c \<noteq> sep) s #
     (if sep \<in> set s then split sep (drop 1 (dropWhile (\<lambda>c. c \<noteq> sep) s)) else [])"
  by (induction s) (auto split: list.splits)

lemma parse_entry_parts:
  "parse_entry line data =
     (case py_int (index_text line) of
        Inl e \<Rightarrow> Inl e
      | Inr idx \<Rightarrow>
          if CHR '']'' \<in> set line
          then Inr (AList.update idx (lower (strip (value_text line))) data)
          else Inl IndexError)"
proof -
  have "split (CHR '']'') line =
      takeWhile (\<lambda>c. c \<noteq> CHR '']'') line #
      (if CHR '']'' \<in> set line
       then value_text line #
            (if CHR '']'' \<in> set (drop 1 (dropWhile (\<lambda>c. c \<noteq> CHR '']'') line))
             then split (CHR '']'')
                    (drop 1 (dropWhile (\<lambda>c. c \<noteq> CHR '']'')
                       (drop 1 (dropWhile (\<lambda>c. c \<noteq> CHR '']'') line))))
             else [])
       else [])"
    by (subst split_unfold, subst split_unfold) (simp add: value_text_def)
  then show ?thesis
    by (simp add: parse_entry_def index_text_def split: sum.splits)
qed

lemma startswith_bracket: "startswith line ''['' \<Longrightarrow> line \<noteq> [] \<and> \<not> startswith line ''//''"
  by (cases line) (auto simp add: startswith_def)

lemma parse_line_malformed:
  assumes "malformed_line (strip raw)"
  shows "parse_line filename raw (data, out) =
           Inr (data, out @ [parse_warning (strip raw) filename])"
proof -
  from assms have b: "startswith (strip raw) ''[''"
    by (simp add: malformed_line_def)
  from assms have "parse_entry (strip raw) data = Inl ValueError \<or>
                   parse_entry (strip raw) data = Inl IndexError"
    using py_int_raises [of "index_text (strip raw)"]
    by (auto simp add: malformed_line_def parse_entry_parts split: sum.splits)
  with b startswith_bracket [OF b] show ?thesis
    by (auto simp add: parse_line_def Let_def)
qed

lemma parse_line_missing_value:
  assumes "missing_value_line (strip raw) idx"
  shows "parse_line filename raw (data, out) = Inr (AList.update idx [] data, out)"
proof -
  from assms have b: "startswith (strip raw) ''[''"
    by (simp add: missing_value_line_def)
  from assms have "parse_entry (strip raw) data = Inr (AList.update idx [] data)"
    by (simp add: missing_value_line_def parse_entry_parts lower_def)
  with b startswith_bracket [OF b] show ?thesis
    by (simp add: parse_line_def Let_def)
qed

lemma parse_line_other:
  "\<not> startswith (strip raw) ''['' \<Longrightarrow> parse_line filename raw st = Inr st"
  by (simp add: parse_line_def Let_def)

lemma parse_loop_bracket_lines:
  "parse_loop filename raws st =
   parse_loop filename (filter (\<lambda>raw. startswith (strip raw) ''['') raws) st"
  by (induction raws arbitrary: st) (simp_all add: parse_line_other split: sum.splits)

lemma parse_loop_around:
  assumes "\<And>d. parse_line filename raw (d, []) = Inr (f d, w)"
  shows "\<exists>d1 o1 d2 o2.
           parse_loop filename before ([], []) = Inr (d1, o1) \<and>
           parse_loop filename after (f d1, []) = Inr (d2, o2) \<and>
           parse_loop filename (before @ raw # after) ([], []) = Inr (d2, o1 @ w @ o2)"
proof -
  obtain d1 o1 where b: "parse_loop filename before ([], []) = Inr (d1, o1)"
    using parse_loop_returns by blast
  obtain d2 o2 where a: "parse_loop filename after (f d1, []) = Inr (d2, o2)"
    using parse_loop_returns by blast
  have step: "parse_line filename raw (d1, o1) = Inr (f d1, o1 @ w)"
    by (subst parse_line_out) (simp add: assms)
  have rest: "parse_loop filename after (f d1, o1 @ w) = Inr (d2, o1 @ w @ o2)"
    by (subst parse_loop_out) (simp add: a)
  have "parse_loop filename (before @ raw # after) ([], []) = Inr (d2, o1 @ w @ o2)"
    by (simp add: parse_loop_append b step rest)
  with a b show ?thesis
    by blast
qed

lemma parse_file_content:
  "fs filename = Some content \<Longrightarrow>
   parse_loop filename (file_lines content) ([], []) = Inr (data, out) \<Longrightarrow>
   parse_file fs filename = Inr (Some data, out)"
  by (simp add: parse_file_def)

subsection \<open>The batch loop\<close>

lemma update_new_key: "k \<notin> fst ` set al \<Longrightarrow> AList.update k v al = al @ [(k, v)]"
  by (induction al) auto

lemma verify_projr: "verify testbench = Inr (projr (verify testbench))"
  using verify_returns [of testbench] by auto

lemma case_exclusive:
  "skipped_case w i \<Longrightarrow> \<not> sim_failed_case w i \<and> \<not> verified_case w i"
  "sim_failed_case w i \<Longrightarrow> \<not> skipped_case w i \<and> \<not> verified_case w i"
  "verified_case w i \<Longrightarrow> \<not> skipped_case w i \<and> \<not> sim_failed_case w i"
  "skipped_case w i \<or> sim_failed_case w i \<or> verified_case w i"
  by (auto simp add: skipped_case_def sim_failed_case_def verified_case_def)

lemma run_testcase_skipped:
  "skipped_case w i \<Longrightarrow> run_testcase w i st = Inr (st\<lparr>skipped := skipped st @ [i]\<rparr>)"
  by (auto simp add: run_testcase_def skipped_case_def)

lemma run_testcase_sim_failed:
  "sim_failed_case w i \<Longrightarrow> taskkill_found w i \<Longrightarrow>
   run_testcase w i st = Inr (st\<lparr>sim_failures := sim_failures st @ [i]\<rparr>)"
  by (simp add: run_testcase_def sim_failed_case_def run_simulation_def bind_result_def)

lemma run_testcase_verified:
  "verified_case w i \<Longrightarrow> taskkill_found w i \<Longrightarrow>
   run_testcase w i st =
     Inr (st\<lparr>results := AList.update i (projr (verify (testbench_at w i))) (results st)\<rparr>)"
proof -
  assume v: "verified_case w i" and t: "taskkill_found w i"
  obtain r where r: "verify (testbench_at w i) = Inr r"
    using verify_returns by blast
  with v t show ?thesis
    by (simp add: run_testcase_def verified_case_def run_simulation_def bind_result_def)
qed

text \<open>The one way out of the loop: the cleanup before a simulation cannot be launched.\<close>

lemma run_testcase_aborts:
  "\<not> skipped_case w i \<Longrightarrow> \<not> taskkill_found w i \<Longrightarrow>
   run_testcase w i st = Inl FileNotFoundError"
  by (simp add: run_testcase_def skipped_case_def run_simulation_def bind_result_def)

lemma run_testcase_returns:
  assumes "\<not> skipped_case w i \<longrightarrow> taskkill_found w i"
  shows "\<exists>st'. run_testcase w i st = Inr st'"
proof -
  consider (s) "skipped_case w i" | (f) "sim_failed_case w i" | (v) "verified_case w i"
    using case_exclusive(4) by blast
  then show ?thesis
  proof cases
    case s
    then show ?thesis by (simp add: run_testcase_skipped)
  next
    case f
    with assms case_exclusive(2) [OF f] show ?thesis by (simp add: run_testcase_sim_failed)
  next
    case v
    with assms case_exclusive(3) [OF v] show ?thesis by (simp add: run_testcase_verified)
  qed
qed

lemma run_testcase_raises: "run_testcase w i st = Inl e \<Longrightarrow> e = FileNotFoundError"
proof -
  assume r: "run_testcase w i st = Inl e"
  show ?thesis
  proof (cases "\<not> skipped_case w i \<and> \<not> taskkill_found w i")
    case True
    with r show ?thesis by (simp add: run_testcase_aborts)
  next
    case False
    then have "\<not> skipped_case w i \<longrightarrow> taskkill_found w i"
      by blast
    from run_testcase_returns [OF this, of st] r show ?thesis
      by auto
  qed
qed

lemma batch_loop_raises: "batch_loop w ids st = Inl e \<Longrightarrow> e = FileNotFoundError"
proof (induction ids arbitrary: st)
  case Nil
  then show ?case by simp
next
  case (Cons i ids)
  then show ?case
    by (cases "run_testcase w i st") (auto dest: run_testcase_raises)
qed

lemma batch_loop_aborts:
  assumes "\<forall>j \<in> set before. \<not> skipped_case w j \<longrightarrow> taskkill_found w j"
      and "\<not> skipped_case w i" and "\<not> taskkill_found w i"
  shows "batch_loop w (before @ i # after) st = Inl FileNotFoundError"
  using assms(1)
proof (induction before arbitrary: st)
  case Nil
  from assms(2,3) show ?case
    by (simp add: run_testcase_aborts)
next
  case (Cons j before)
  then have "\<not> skipped_case w j \<longrightarrow> taskkill_found w j"
    by simp
  from run_testcase_returns [OF this, of st] obtain st' where
    "run_testcase w j st = Inr st'"
    by blast
  with Cons show ?case
    by simp
qed

lemma batch_loop_eq:
  assumes "distinct ids" and "set ids \<inter> fst ` set (results st) = {}"
      and "\<forall>i \<in> set ids. \<not> skipped_case w i \<longrightarrow> taskkill_found w i"
  shows "batch_loop w ids st =
           Inr \<lparr>results = results st @
                             map (\<lambda>i. (i, projr (verify (testbench_at w i))))
                               (filter (verified_case w) ids),
                 sim_failures = sim_failures st @ filter (sim_failed_case w) ids,
                 skipped = skipped st @ filter (skipped_case w) ids\<rparr>"
  using assms
proof (induction ids arbitrary: st)
  case Nil
  then show ?case by simp
next
  case (Cons i ids)
  from Cons.prems have tk: "\<not> skipped_case w i \<Longrightarrow> taskkill_found w i"
    and rest: "\<forall>j \<in> set ids. \<not> skipped_case w j \<longrightarrow> taskkill_found w j"
    and d: "distinct ids"
    by simp_all
  consider (s) "skipped_case w i" | (f) "sim_failed_case w i" | (v) "verified_case w i"
    using case_exclusive(4) by blast
  then show ?case
  proof cases
    case s
    with Cons.prems(2) Cons.IH [of "st\<lparr>skipped := skipped st @ [i]\<rparr>", OF d _ rest]
         case_exclusive(1) [OF s]
    show ?thesis
      by (simp add: run_testcase_skipped)
  next
    case f
    with Cons.prems(2) Cons.IH [of "st\<lparr>sim_failures := sim_failures st @ [i]\<rparr>", OF d _ rest]
         case_exclusive(2) [OF f] tk
    show ?thesis
      by (simp add: run_testcase_sim_failed)
  next
    case v
    let ?r = "projr (verify (testbench_at w i))"
    from Cons.prems have new: "i \<notin> fst ` set (results st)"
      by auto
    then have upd: "AList.update i ?r (results st) = results st @ [(i, ?r)]"
      by (rule update_new_key)
    from Cons.prems have fresh: "set ids \<inter> fst ` set (results st @ [(i, ?r)]) = {}"
      by auto
    from Cons.IH [of "st\<lparr>results := results st @ [(i, ?r)]\<rparr>", OF d _ rest] fresh
         case_exclusive(3) [OF v] v upd tk
    show ?thesis
      by (simp add: run_testcase_verified)
  qed
qed

lemma range_facts:
  "set testcase_range = {1..12}" "distinct testcase_range" "sorted testcase_range"
  "length testcase_range = 12"
  unfolding testcase_range_def
  by (rule set_upto, rule distinct_upto, rule sorted_upto, simp only: length_upto)

lemma batch_loop_initial:
  assumes "\<forall>i \<in> {1..12}. \<not> skipped_case w i \<longrightarrow> taskkill_found w i"
  shows "batch_loop w testcase_range initial_batch_state =
     Inr \<lparr>results = map (\<lambda>i. (i, projr (verify (testbench_at w i))))
                       (filter (verified_case w) testcase_range),
           sim_failures = filter (sim_failed_case w) testcase_range,
           skipped = filter (skipped_case w) testcase_range\<rparr>"
  using batch_loop_eq [of testcase_range initial_batch_state w] range_facts(1,2) assms
  by (simp add: initial_batch_state_def)

lemma filter_cover:
  "(\<And>x. P x \<or> Q x \<or> R x) \<Longrightarrow>
   set (filter P xs) \<union> set (filter Q xs) \<union> set (filter R xs) = set xs"
  by auto

lemma filter_disjoint:
  "(\<And>x. P x \<Longrightarrow> \<not> Q x) \<Longrightarrow> set (filter P xs) \<inter> set (filter Q xs) = {}"
  by auto

lemma in_range_filter:
  "(i \<in> set (filter P testcase_range)) = (1 \<le> i \<and> i \<le> 12 \<and> P i)"
  by (simp add: range_facts(1))

lemma length_three_way:
  "length (filter (skipped_case w) ids) + length (filter (sim_failed_case w) ids) +
   length (filter (verified_case w) ids) = length ids"
proof (induction ids)
  case Nil
  then show ?case by simp
next
  case (Cons i ids)
  consider (s) "skipped_case w i" | (f) "sim_failed_case w i" | (v) "verified_case w i"
    using case_exclusive(4) by blast
  then show ?case
    using Cons.IH case_exclusive(1-3) [of w i] by cases auto
qed

lemma map_of_tabulate:
  "map_of (map (\<lambda>i. (i, f i)) xs) i = (if i \<in> set xs then Some (f i) else None)"
  by (induction xs) auto

text \<open>
  Where the cleanup can be launched for every test case that reaches the simulation, the
  loop returns, and the three containers hold in ascending order the identifiers whose own
  stages put them there: they are disjoint, cover 1..12 and have 12 entries together.
\<close>

lemma batch_loop_partition:
  assumes "\<forall>i \<in> {1..12}. \<not> skipped_case w i \<longrightarrow> taskkill_found w i"
  shows "\<exists>st. batch_loop w testcase_range initial_batch_state = Inr st \<and>
     skipped st = filter (skipped_case w) testcase_range \<and>
     sim_failures st = filter (sim_failed_case w) testcase_range \<and>
     keys (results st) = filter (verified_case w) testcase_range \<and>
     (\<forall>i \<in> set (keys (results st)).
        \<exists>r. map_of (results st) i = Some r \<and> verify (testbench_at w i) = Inr r) \<and>
     set (skipped st) \<union> set (sim_failures st) \<union> set (keys (results st)) = {1..12} \<and>
     set (skipped st) \<inter> set (sim_failures st) = {} \<and>
     set (skipped st) \<inter> set (keys (results st)) = {} \<and>
     set (sim_failures st) \<inter> set (keys (results st)) = {} \<and>
     distinct (skipped st) \<and> distinct (sim_failures st) \<and> distinct (keys (results st)) \<and>
     sorted (skipped st) \<and> sorted (sim_failures st) \<and> sorted (keys (results st)) \<and>
     length (skipped st) + length (sim_failures st) + length (results st) = 12"
proof -
  define st where "st =
     \<lparr>results = map (\<lambda>i. (i, projr (verify (testbench_at w i))))
                   (filter (verified_case w) testcase_range),
       sim_failures = filter (sim_failed_case w) testcase_range,
       skipped = filter (skipped_case w) testcase_range\<rparr>"
  have loop: "batch_loop w testcase_range initial_batch_state = Inr st"
    by (simp add: batch_loop_initial [OF assms] st_def)
  have sk: "skipped st = filter (skipped_case w) testcase_range"
    and sf: "sim_failures st = filter (sim_failed_case w) testcase_range"
    and ks: "keys (results st) = filter (verified_case w) testcase_range"
    by (simp_all add: st_def keys_def comp_def)
  have res: "\<forall>i \<in> set (keys (results st)).
      \<exists>r. map_of (results st) i = Some r \<and> verify (testbench_at w i) = Inr r"
    unfolding ks using verify_projr by (simp add: st_def map_of_tabulate)
  have cover: "set (skipped st) \<union> set (sim_failures st) \<union> set (keys (results st)) = {1..12}"
    unfolding sk sf ks range_facts(1) [symmetric]
    by (rule filter_cover) (rule case_exclusive(4))
  have d1: "set (skipped st) \<inter> set (sim_failures st) = {}"
    unfolding sk sf by (rule filter_disjoint) (simp add: case_exclusive(1))
  have d2: "set (skipped st) \<inter> set (keys (results st)) = {}"
    unfolding sk ks by (rule filter_disjoint) (simp add: case_exclusive(1))
  have d3: "set (sim_failures st) \<inter> set (keys (results st)) = {}"
    unfolding sf ks by (rule filter_disjoint) (simp add: case_exclusive(2))
  have dist: "distinct (skipped st)" "distinct (sim_failures st)" "distinct (keys (results st))"
    unfolding sk sf ks by (simp_all add: range_facts(2))
  have srt: "sorted (skipped st)" "sorted (sim_failures st)" "sorted (keys (results st))"
    unfolding sk sf ks by (simp_all add: sorted_wrt_filter range_facts(3))
  have len: "length (skipped st) + length (sim_failures st) + length (results st) = 12"
    using length_three_way [of w testcase_range] by (simp add: st_def range_facts(4))
  show ?thesis
    apply (rule exI [of _ st])
    apply (intro conjI)
    apply (rule loop sk sf ks res cover d1 d2 d3 dist srt len)+
    done
qed

subsection \<open>The verdict of the batch\<close>

lemma count_passed_eq:
  "count_passed st ids n =
     n + length (filter (\<lambda>i. i \<notin> set (skipped st) \<and> i \<notin> set (sim_failures st) \<and>
                             (\<exists>r. map_of (results st) i = Some r \<and> success r)) ids)"
  by (induction ids arbitrary: n) (auto split: option.splits)

lemma length_filter_conj_le:
  "length (filter (\<lambda>x. P x \<and> Q x) xs) \<le> length (filter P xs)"
  by (induction xs) auto

lemma length_filter_conj_eq:
  "(length (filter (\<lambda>x. P x \<and> Q x) xs) = length (filter P xs)) = (\<forall>x \<in> set xs. P x \<longrightarrow> Q x)"
proof (induction xs)
  case Nil
  then show ?case by simp
next
  case (Cons x xs)
  show ?case
    using Cons.IH length_filter_conj_le [of P Q xs] by auto
qed

text \<open>
  What lines 476-492 return after a loop that was not cut short: true iff a test case was
  verified, every verified one has \<^verbatim>\<open>success\<close>, and no simulation failed. The skipped list
  is not consulted.
\<close>

lemma batch_verdict_eq:
  assumes "\<forall>i \<in> {1..12}. \<not> skipped_case w i \<longrightarrow> taskkill_found w i"
      and "batch_loop w testcase_range initial_batch_state = Inr st"
  shows "batch_verdict st =
           ((\<exists>i \<in> {1..12}. verified_case w i) \<and>
            (\<forall>i \<in> {1..12}. verified_case w i \<longrightarrow> success (projr (verify (testbench_at w i)))) \<and>
            (\<forall>i \<in> {1..12}. \<not> sim_failed_case w i))"
proof -
  let ?f = "\<lambda>i. projr (verify (testbench_at w i))"
  from assms have st: "st =
     \<lparr>results = map (\<lambda>i. (i, ?f i)) (filter (verified_case w) testcase_range),
       sim_failures = filter (sim_failed_case w) testcase_range,
       skipped = filter (skipped_case w) testcase_range\<rparr>"
    by (simp add: batch_loop_initial)
  have passed: "count_passed st testcase_range 0 =
      length (filter (\<lambda>i. verified_case w i \<and> success (?f i)) testcase_range)"
    unfolding count_passed_eq
    using case_exclusive(3) [of w]
    by (auto simp add: st map_of_tabulate intro!: arg_cong [where f = length] filter_cong)
  have total: "length (results st) = length (filter (verified_case w) testcase_range)"
    by (simp add: st)
  have none: "(length (filter (verified_case w) testcase_range) = 0) =
              (\<not> (\<exists>i \<in> {1..12}. verified_case w i))"
    by (simp add: filter_empty_conv range_facts(1))
  have nosim: "(sim_failures st = []) = (\<forall>i \<in> {1..12}. \<not> sim_failed_case w i)"
    by (simp add: st filter_empty_conv range_facts(1))
  show ?thesis
    unfolding batch_verdict_def Let_def passed total length_filter_conj_eq nosim
    using none by (auto simp add: range_facts(1))
qed

lemma run_all_testcases_raises:
  "run_all_testcases w = Inl e \<Longrightarrow> e = SystemExit 1 \<or> e = FileNotFoundError"
  by (auto simp add: run_all_testcases_def bind_result_def split: if_splits sum.splits
        dest: batch_loop_raises)

subsection \<open>The prompt\<close>

lemma main_raises:
  "prompt_try w answer = Inl e \<Longrightarrow> e \<noteq> ValueError \<Longrightarrow> e \<noteq> KeyboardInterrupt \<Longrightarrow>
   main w (Line answer # evs) = main_except e"
  by (simp add: main_def main_try_def bind_result_def)

lemma main_all:
  assumes "lower (strip answer) = ''all''"
  shows "main w (Line answer # evs) =
           (case run_all_testcases w of
              Inr passed \<Rightarrow> if passed then 0 else 1
            | Inl e \<Rightarrow> main_except e)"
proof (cases "run_all_testcases w")
  case (Inr passed)
  with assms have "prompt_try w answer = Inl (SystemExit (if passed then 0 else 1))"
    by (simp add: prompt_try_def bind_result_def)
  from main_raises [OF this, of evs] Inr
  show ?thesis by (simp add: main_except_def)
next
  case (Inl e)
  from run_all_testcases_raises [OF Inl] have e: "e \<noteq> ValueError" "e \<noteq> KeyboardInterrupt"
    by auto
  from Inl assms have "prompt_try w answer = Inl e"
    by (simp add: prompt_try_def bind_result_def)
  from main_raises [OF this e, of evs] Inl
  show ?thesis by simp
qed

lemma prompt_try_invalid:
  assumes "invalid_input w answer"
  shows "prompt_try w answer = Inl ValueError \<and> invalid_input_message answer = invalid_message \<or>
         prompt_try w answer = Inr (Continue (invalid_input_message answer))"
proof (cases "py_int (lower (strip answer))")
  case (Inl e)
  with py_int_raises [OF Inl] assms show ?thesis
    by (simp add: invalid_input_def invalid_input_message_def prompt_try_def bind_result_def)
next
  case (Inr n)
  with assms show ?thesis
    by (auto simp add: invalid_input_def invalid_input_message_def prompt_try_def bind_result_def)
qed

lemma prompt_loop_invalid:
  "invalid_input w answer \<Longrightarrow>
   prompt_loop w (Line answer # evs) =
     printing (invalid_input_message answer) (prompt_loop w evs)"
  using prompt_try_invalid [of w answer] by auto

lemma prompt_loop_interrupt:
  "prompt_loop w (Interrupt # evs) = (Inr Returned, [cancelled_message])"
  by simp

lemma main_invalid: "invalid_input w answer \<Longrightarrow> main w (Line answer # evs) = main w evs"
  by (simp add: main_def main_try_def prompt_loop_invalid printing_def del: prompt_loop.simps)

lemma main_interrupt: "main w (Interrupt # evs) = 0"
  by (simp add: main_def main_try_def bind_result_def)

lemma main_invalids:
  "\<forall>answer \<in> set answers. invalid_input w answer \<Longrightarrow>
   main w (map Line answers @ evs) = main w evs"
  by (induction answers) (simp_all add: main_invalid del: prompt_loop.simps)

lemma prompt_loop_invalids:
  "\<forall>answer \<in> set answers. invalid_input w answer \<Longrightarrow>
   prompt_loop w (map Line answers @ evs) =
     (fst (prompt_loop w evs), map invalid_input_message answers @ snd (prompt_loop w evs))"
  by (induction answers) (simp_all add: prompt_loop_invalid printing_def del: prompt_loop.simps)

section \<open>The claims\<close>

text \<open>
  C1. For two parsed images, \<^const>\<open>compare_data\<close> walks the union of their indices in ascending
  order and records a mismatch exactly at the indices where the two images differ, an index
  present on one side only included, with \<^verbatim>\<open>'MISSING'\<close> standing for the absent side; it
  passes iff there is no mismatch and its count is the length of the mismatch list. For
  A = {0: '1', 2: '3'} and B = {0: '1', 1: '2'} the mismatches are index 1 (MISSING against 2)
  and index 2 (3 against MISSING), in this order.
\<close>

theorem compare_data_parsed_images:
  assumes "parse_file fs1 f1 = Inr (Some sim_data, o1)"
      and "parse_file fs2 f2 = Inr (Some golden_data, o2)"
  shows "map index (compare_mismatches sim_data golden_data) =
           filter (\<lambda>i. map_of sim_data i \<noteq> map_of golden_data i)
             (sorted_list_of_set (set (keys sim_data) \<union> set (keys golden_data))) \<and>
         sorted (map index (compare_mismatches sim_data golden_data)) \<and>
         distinct (map index (compare_mismatches sim_data golden_data)) \<and>
         set (map index (compare_mismatches sim_data golden_data)) =
           {i. map_of sim_data i \<noteq> map_of golden_data i} \<and>
         (set (keys sim_data) - set (keys golden_data)) \<union>
         (set (keys golden_data) - set (keys sim_data))
           \<subseteq> set (map index (compare_mismatches sim_data golden_data)) \<and>
         (\<forall>m \<in> set (compare_mismatches sim_data golden_data).
            simulation m = (case map_of sim_data (index m) of None \<Rightarrow> ''MISSING'' | Some v \<Rightarrow> v) \<and>
            golden m = (case map_of golden_data (index m) of None \<Rightarrow> ''MISSING'' | Some v \<Rightarrow> v)) \<and>
         fst (compare_data (Some sim_data) (Some golden_data) name) =
           (compare_mismatches sim_data golden_data = []) \<and>
         fst (snd (compare_data (Some sim_data) (Some golden_data) name)) =
           length (compare_mismatches sim_data golden_data) \<and>
         compare_mismatches [(0, ''1''), (2, ''3'')] [(0, ''1''), (1, ''2'')] =
           [\<lparr>index = 1, simulation = ''MISSING'', golden = ''2''\<rparr>,
            \<lparr>index = 2, simulation = ''3'', golden = ''MISSING''\<rparr>]"
proof -
  let ?ms = "compare_mismatches sim_data golden_data"
  let ?all = "sorted_list_of_set (set (keys sim_data) \<union> set (keys golden_data))"
  have la: "lowercase_values sim_data" and lb: "lowercase_values golden_data"
    using assms by (blast intro: parse_file_lowercase)+
  have idx: "map index ?ms = filter (\<lambda>i. map_of sim_data i \<noteq> map_of golden_data i) ?all"
    by (simp add: compare_mismatches_index dict_get_differs [OF la lb])
  have srt: "sorted (map index ?ms)"
    unfolding idx by (rule sorted_wrt_filter) simp
  have dst: "distinct (map index ?ms)"
    unfolding idx by simp
  have st: "set (map index ?ms) = {i. map_of sim_data i \<noteq> map_of golden_data i}"
    unfolding idx by (auto simp add: keys_iff)
  have one: "(set (keys sim_data) - set (keys golden_data)) \<union>
             (set (keys golden_data) - set (keys sim_data)) \<subseteq> set (map index ?ms)"
    unfolding st by (auto simp add: keys_iff)
  have fields: "\<forall>m \<in> set ?ms.
      simulation m = (case map_of sim_data (index m) of None \<Rightarrow> ''MISSING'' | Some v \<Rightarrow> v) \<and>
      golden m = (case map_of golden_data (index m) of None \<Rightarrow> ''MISSING'' | Some v \<Rightarrow> v)"
    using compare_mismatches_fields [of _ sim_data golden_data]
    by (simp add: dict_get_def MISSING_def)
  have res: "fst (compare_data (Some sim_data) (Some golden_data) name) = (?ms = [])"
            "fst (snd (compare_data (Some sim_data) (Some golden_data) name)) = length ?ms"
    by (simp_all add: compare_data_present)
  show ?thesis
    using idx srt dst st one fields res example_two_mismatches by blast
qed


theorem compare_data_parsed_images_witness:
  "parse_file example_files ''A'' = Inr (Some [(0, ''1''), (2, ''3'')], []) \<and>
   parse_file example_files ''B'' = Inr (Some [(0, ''1''), (1, ''2'')], []) \<and>
   map index (compare_mismatches [(0, ''1''), (2, ''3'')] [(0, ''1''), (1, ''2'')]) = [1, 2] \<and>
   set (map index (compare_mismatches [(0, ''1''), (2, ''3'')] [(0, ''1''), (1, ''2'')])) =
     {i. map_of [(0, ''1''), (2, ''3'')] i \<noteq> map_of [(0::int, ''1''), (1, ''2'')] i} \<and>
   compare_data (Some [(0, ''1''), (2, ''3'')]) (Some [(0, ''1''), (1, ''2'')]) ''RF'' =
     (False, 2, mismatch_details (compare_mismatches [(0, ''1''), (2, ''3'')] [(0, ''1''), (1, ''2'')]))"
proof -
  have a: "parse_file example_files ''A'' = Inr (Some [(0, ''1''), (2, ''3'')], [])"
    unfolding example_files_def example_A_def by code_simp
  have b: "parse_file example_files ''B'' = Inr (Some [(0, ''1''), (1, ''2'')], [])"
    unfolding example_files_def example_B_def by code_simp
  note t = compare_data_parsed_images [OF a b, of "''RF''"]
  from t have v: "compare_mismatches [(0, ''1''), (2, ''3'')] [(0, ''1''), (1, ''2'')] =
      [\<lparr>index = 1, simulation = ''MISSING'', golden = ''2''\<rparr>,
       \<lparr>index = 2, simulation = ''3'', golden = ''MISSING''\<rparr>]"
    by (elim conjE)
  from t have s: "set (map index (compare_mismatches [(0, ''1''), (2, ''3'')] [(0, ''1''), (1, ''2'')])) =
      {i. map_of [(0, ''1''), (2, ''3'')] i \<noteq> map_of [(0::int, ''1''), (1, ''2'')] i}"
    by (elim conjE)
  have m: "map index (compare_mismatches [(0, ''1''), (2, ''3'')] [(0, ''1''), (1, ''2'')]) = [1, 2]"
    by (simp add: v)
  have c: "compare_data (Some [(0, ''1''), (2, ''3'')]) (Some [(0, ''1''), (1, ''2'')]) ''RF'' =
      (False, 2, mismatch_details (compare_mismatches [(0, ''1''), (2, ''3'')] [(0, ''1''), (1, ''2'')]))"
    by (simp add: compare_data_present v)
  from a b m s c show ?thesis
    by (intro conjI)
qed

text \<open>
  C6. When the simulation output or the golden reference is missing, \<^const>\<open>compare_data\<close>
  fails with a message that names the missing side. The result does not depend on the other
  image: no index is compared.
\<close>

theorem compare_data_missing_side:
  "compare_data None golden_data name = (False, 0, name @ '' simulation output not found'') \<and>
   compare_data (Some sim) None name = (False, 0, name @ '' golden reference not found'')"
  by (simp add: compare_data_def)

theorem compare_data_missing_side_witness:
  "compare_data None (Some [(0, ''1'')]) ''RF'' = (False, 0, ''RF simulation output not found'') \<and>
   compare_data (Some [(0, ''1'')]) None ''RF'' = (False, 0, ''RF golden reference not found'')"
  using compare_data_missing_side [of "Some [(0, ''1'')]" "''RF''" "[(0, ''1'')]"]
  by simp

text \<open>
  C7. Values are stored in lower case, so the comparison ignores letter case: two artifacts
  that are equal up to the case of their letters (of the hexadecimal digits in particular)
  parse to the same image, every stored value is its own lower-case form, and comparing the
  two images gives no mismatch and passes.
\<close>

theorem comparison_ignores_letter_case:
  assumes "fs1 f1 = Some a" and "fs2 f2 = Some b" and "lower a = lower b"
  shows "\<exists>data o1 o2.
           parse_file fs1 f1 = Inr (Some data, o1) \<and>
           parse_file fs2 f2 = Inr (Some data, o2) \<and>
           (\<forall>k v. map_of data k = Some v \<longrightarrow> lower v = v) \<and>
           compare_mismatches data data = [] \<and>
           compare_data (Some data) (Some data) name = (True, 0, [])"
proof -
  obtain d1 o1 where p1: "parse_file fs1 f1 = Inr (Some d1, o1)"
      and l1: "parse_loop f1 (file_lines a) ([], []) = Inr (d1, o1)"
    using parse_file_exists [of fs1 f1 a, OF assms(1)] by blast
  obtain d2 o2 where p2: "parse_file fs2 f2 = Inr (Some d2, o2)"
      and l2: "parse_loop f2 (file_lines b) ([], []) = Inr (d2, o2)"
    using parse_file_exists [of fs2 f2 b, OF assms(2)] by blast
  from parse_loop_caseless [OF assms(3), of f1 f2] l1 l2 have "d1 = d2"
    by simp
  moreover from parse_file_lowercase [OF p1]
  have "\<forall>k v. map_of d1 k = Some v \<longrightarrow> lower v = v"
    by (simp add: lowercase_values_def)
  moreover have "compare_data (Some d1) (Some d1) name = (True, 0, [])"
    by (simp add: compare_data_present compare_mismatches_same)
  ultimately show ?thesis
    using p1 p2 compare_mismatches_same [of d1] by blast
qed

theorem comparison_ignores_letter_case_witness:
  "example_case_files ''A'' = Some example_lower \<and>
   example_case_files ''B'' = Some example_upper \<and>
   example_lower \<noteq> example_upper \<and>
   lower example_lower = lower example_upper \<and>
   parse_file example_case_files ''A'' = Inr (Some [(0, ''0000000a''), (1, ''ff'')], []) \<and>
   parse_file example_case_files ''B'' = Inr (Some [(0, ''0000000a''), (1, ''ff'')], []) \<and>
   compare_data (Some [(0, ''0000000a''), (1, ''ff'')]) (Some [(0, ''0000000a''), (1, ''ff'')]) ''RF'' =
     (True, 0, [])"
proof -
  have fa: "example_case_files ''A'' = Some example_lower"
    by (simp add: example_case_files_def)
  have fb: "example_case_files ''B'' = Some example_upper"
    by (simp add: example_case_files_def)
  have ne: "example_lower \<noteq> example_upper"
    by (simp add: example_lower_def example_upper_def)
  have lw: "lower example_lower = lower example_upper"
    unfolding example_lower_def example_upper_def by code_simp
  have pa: "parse_file example_case_files ''A'' = Inr (Some [(0, ''0000000a''), (1, ''ff'')], [])"
    unfolding example_case_files_def example_lower_def by code_simp
  have pb: "parse_file example_case_files ''B'' = Inr (Some [(0, ''0000000a''), (1, ''ff'')], [])"
    unfolding example_case_files_def example_upper_def by code_simp
  from comparison_ignores_letter_case
         [of example_case_files "''A''" example_lower example_case_files "''B''" example_upper
             "''RF''", OF fa fb lw] pa
  have "compare_data (Some [(0, ''0000000a''), (1, ''ff'')]) (Some [(0, ''0000000a''), (1, ''ff'')]) ''RF'' =
     (True, 0, [])"
    by auto
  with fa fb ne lw pa pb show ?thesis
    by (intro conjI)
qed

text \<open>
  C5. When the four artifacts exist, \<^const>\<open>verify\<close> returns the pass flags of the two
  comparisons and their conjunction as the overall flag; when the register file matches and
  the data memory has a mismatch, the result has \<^verbatim>\<open>rf_pass\<close> true, \<^verbatim>\<open>dm_pass\<close> false and
  \<^verbatim>\<open>success\<close> false.
\<close>

theorem verify_overall_conjunction:
  assumes "\<forall>filename \<in> set files_to_check. testbench filename \<noteq> None"
  shows "\<exists>r rf_sim o1 rf_golden o2 dm_sim o3 dm_golden o4.
           verify testbench = Inr r \<and>
           parse_file testbench ''RF.out'' = Inr (Some rf_sim, o1) \<and>
           parse_file testbench ''RF.golden'' = Inr (Some rf_golden, o2) \<and>
           parse_file testbench ''DM.out'' = Inr (Some dm_sim, o3) \<and>
           parse_file testbench ''DM.golden'' = Inr (Some dm_golden, o4) \<and>
           rf_pass r = fst (compare_data (Some rf_sim) (Some rf_golden) ''RF'') \<and>
           dm_pass r = fst (compare_data (Some dm_sim) (Some dm_golden) ''DM'') \<and>
           success r = (rf_pass r \<and> dm_pass r) \<and>
           (compare_mismatches rf_sim rf_golden = [] \<and> compare_mismatches dm_sim dm_golden \<noteq> []
              \<longrightarrow> rf_pass r \<and> \<not> dm_pass r \<and> \<not> success r)"
proof -
  from verify_present [OF assms] obtain rf_sim o1 rf_golden o2 dm_sim o3 dm_golden o4 where
    p: "parse_file testbench ''RF.out'' = Inr (Some rf_sim, o1)"
       "parse_file testbench ''RF.golden'' = Inr (Some rf_golden, o2)"
       "parse_file testbench ''DM.out'' = Inr (Some dm_sim, o3)"
       "parse_file testbench ''DM.golden'' = Inr (Some dm_golden, o4)"
    and v: "verify testbench =
             Inr \<lparr>success = (compare_mismatches rf_sim rf_golden = [] \<and>
                              compare_mismatches dm_sim dm_golden = []),
                   rf_pass = fst (compare_data (Some rf_sim) (Some rf_golden) ''RF''),
                   dm_pass = fst (compare_data (Some dm_sim) (Some dm_golden) ''DM''),
                   rf_mismatches = fst (snd (compare_data (Some rf_sim) (Some rf_golden) ''RF'')),
                   dm_mismatches = fst (snd (compare_data (Some dm_sim) (Some dm_golden) ''DM'')),
                   rf_details = snd (snd (compare_data (Some rf_sim) (Some rf_golden) ''RF'')),
                   dm_details = snd (snd (compare_data (Some dm_sim) (Some dm_golden) ''DM''))\<rparr>"
    by blast
  show ?thesis
    apply (rule exI, rule exI [of _ rf_sim], rule exI [of _ o1], rule exI [of _ rf_golden],
           rule exI [of _ o2], rule exI [of _ dm_sim], rule exI [of _ o3],
           rule exI [of _ dm_golden], rule exI [of _ o4])
    apply (intro conjI)
            apply (rule v)
           apply (rule p)+
       apply (simp_all add: compare_data_present)
    done
qed

theorem verify_overall_conjunction_witness:
  "example_testbench ''RF.out'' \<noteq> None \<and> example_testbench ''RF.golden'' \<noteq> None \<and>
   example_testbench ''DM.out'' \<noteq> None \<and> example_testbench ''DM.golden'' \<noteq> None \<and>
   (\<exists>r. verify example_testbench = Inr r \<and> rf_pass r \<and> \<not> dm_pass r \<and> \<not> success r \<and>
        rf_mismatches r = 0 \<and> dm_mismatches r = 1 \<and> success r = (rf_pass r \<and> dm_pass r))"
proof -
  have h: "\<forall>filename \<in> set files_to_check. example_testbench filename \<noteq> None"
    by (simp add: files_to_check_def example_testbench_def)
  have p: "parse_file example_testbench ''RF.out'' = Inr (Some [(0, ''1'')], [])"
          "parse_file example_testbench ''RF.golden'' = Inr (Some [(0, ''1'')], [])"
          "parse_file example_testbench ''DM.out'' = Inr (Some [(0, ''1'')], [])"
          "parse_file example_testbench ''DM.golden'' = Inr (Some [(0, ''2'')], [])"
    unfolding example_testbench_def by code_simp+
  have m: "compare_mismatches [(0, ''1'')] [(0, ''1'')] = []"
          "compare_mismatches [(0, ''1'')] [(0, ''2'')] =
             [\<lparr>index = 0, simulation = ''1'', golden = ''2''\<rparr>]"
    by code_simp+
  from verify_overall_conjunction [OF h] obtain r where
    "verify example_testbench = Inr r"
    "rf_pass r = fst (compare_data (Some [(0, ''1'')]) (Some [(0, ''1'')]) ''RF'')"
    "dm_pass r = fst (compare_data (Some [(0, ''1'')]) (Some [(0, ''2'')]) ''DM'')"
    "success r = (rf_pass r \<and> dm_pass r)"
    unfolding p by auto
  moreover from this(1) have "rf_mismatches r = 0" "dm_mismatches r = 1"
    using verify_present [OF h] unfolding p by (auto simp add: compare_data_present m)
  ultimately show ?thesis
    using h by (auto simp add: files_to_check_def compare_data_present m)
qed

text \<open>
  C9. A missing side gives a failed result with mismatch count zero: \<^const>\<open>compare_data\<close>
  with \<^verbatim>\<open>None\<close> on either side returns (False, 0, reason), and \<^const>\<open>verify\<close> with one of the
  four files absent returns \<^verbatim>\<open>success\<close> false with both mismatch counts zero. A count of
  zero therefore does not mean that the channel passed.
\<close>

theorem missing_artifact_counts_zero:
  assumes "filename \<in> set files_to_check" and "testbench filename = None"
  shows "compare_data None golden_data name = (False, 0, name @ '' simulation output not found'') \<and>
         compare_data (Some sim) None name = (False, 0, name @ '' golden reference not found'') \<and>
         verify testbench =
           Inr \<lparr>success = False, rf_pass = False, dm_pass = False,
                 rf_mismatches = 0, dm_mismatches = 0, rf_details = [], dm_details = []\<rparr>"
  using verify_missing [of filename testbench, OF assms] by (simp add: compare_data_def)

theorem missing_artifact_counts_zero_witness:
  "''DM.golden'' \<in> set files_to_check \<and> example_incomplete_testbench ''DM.golden'' = None \<and>
   compare_data None (Some [(0, ''2'')]) ''DM'' = (False, 0, ''DM simulation output not found'') \<and>
   compare_data (Some [(0, ''1'')]) None ''DM'' = (False, 0, ''DM golden reference not found'') \<and>
   verify example_incomplete_testbench =
     Inr \<lparr>success = False, rf_pass = False, dm_pass = False,
           rf_mismatches = 0, dm_mismatches = 0, rf_details = [], dm_details = []\<rparr>"
proof -
  have a: "''DM.golden'' \<in> set files_to_check"
    by (simp add: files_to_check_def)
  have b: "example_incomplete_testbench ''DM.golden'' = None"
    by (simp add: example_incomplete_testbench_def)
  from missing_artifact_counts_zero
         [of "''DM.golden''" example_incomplete_testbench "Some [(0, ''2'')]" "''DM''" "[(0, ''1'')]",
          OF a b] a b
  show ?thesis by simp
qed

text \<open>
  C3 (amended). A data line whose index is not an integer or that has no closing bracket is
  answered by one warning and stores nothing, and the lines after it are parsed as if it were
  not there. A data line with an index and a closing bracket but no value is not detected:
  it stores the empty string under its index and prints no warning; parsing continues too.
\<close>

theorem malformed_line_skipped:
  assumes "fs filename = Some content" and "file_lines content = before @ raw # after"
  shows "(malformed_line (strip raw) \<longrightarrow>
            (\<exists>d1 o1 d2 o2.
               parse_loop filename before ([], []) = Inr (d1, o1) \<and>
               parse_loop filename after (d1, []) = Inr (d2, o2) \<and>
               parse_file fs filename =
                 Inr (Some d2, o1 @ [parse_warning (strip raw) filename] @ o2))) \<and>
         (missing_value_line (strip raw) idx \<longrightarrow>
            (\<exists>d1 o1 d2 o2.
               parse_loop filename before ([], []) = Inr (d1, o1) \<and>
               parse_loop filename after (AList.update idx [] d1, []) = Inr (d2, o2) \<and>
               parse_file fs filename = Inr (Some d2, o1 @ o2)))"
proof (intro conjI impI)
  assume m: "malformed_line (strip raw)"
  have "\<And>d. parse_line filename raw (d, []) =
          Inr ((\<lambda>d. d) d, [parse_warning (strip raw) filename])"
    using parse_line_malformed [OF m, of filename _ "[]"] by simp
  from parse_loop_around [of filename raw "\<lambda>d. d", OF this, of before after]
  show "\<exists>d1 o1 d2 o2.
          parse_loop filename before ([], []) = Inr (d1, o1) \<and>
          parse_loop filename after (d1, []) = Inr (d2, o2) \<and>
          parse_file fs filename = Inr (Some d2, o1 @ [parse_warning (strip raw) filename] @ o2)"
    using parse_file_content [of fs filename content, OF assms(1)]
    unfolding assms(2) by blast
next
  assume m: "missing_value_line (strip raw) idx"
  have "\<And>d. parse_line filename raw (d, []) = Inr (AList.update idx [] d, [])"
    using parse_line_missing_value [OF m, of filename _ "[]"] by simp
  from parse_loop_around [of filename raw "AList.update idx []", OF this, of before after]
  show "\<exists>d1 o1 d2 o2.
          parse_loop filename before ([], []) = Inr (d1, o1) \<and>
          parse_loop filename after (AList.update idx [] d1, []) = Inr (d2, o2) \<and>
          parse_file fs filename = Inr (Some d2, o1 @ o2)"
    using parse_file_content [of fs filename content, OF assms(1)]
    unfolding assms(2) by fastforce
qed

theorem malformed_line_skipped_witness:
  "example_malformed_files ''RF.out'' = Some example_malformed \<and>
   file_lines example_malformed =
     [''[0] 1'' @ [LF]] @ (''[x] 2'' @ [LF]) # [''[7'' @ [LF], ''[5]'' @ [LF], ''[1] 2''] \<and>
   file_lines example_malformed =
     [''[0] 1'' @ [LF], ''[x] 2'' @ [LF], ''[7'' @ [LF]] @ (''[5]'' @ [LF]) # [''[1] 2''] \<and>
   malformed_line (strip (''[x] 2'' @ [LF])) \<and>
   missing_value_line (strip (''[5]'' @ [LF])) 5 \<and>
   (\<exists>d1 o1 d2 o2.
      parse_loop ''RF.out'' [''[0] 1'' @ [LF]] ([], []) = Inr (d1, o1) \<and>
      parse_loop ''RF.out'' [''[7'' @ [LF], ''[5]'' @ [LF], ''[1] 2''] (d1, []) = Inr (d2, o2) \<and>
      parse_file example_malformed_files ''RF.out'' =
        Inr (Some d2, o1 @ [parse_warning (strip (''[x] 2'' @ [LF])) ''RF.out''] @ o2)) \<and>
   (\<exists>d1 o1 d2 o2.
      parse_loop ''RF.out'' [''[0] 1'' @ [LF], ''[x] 2'' @ [LF], ''[7'' @ [LF]] ([], []) = Inr (d1, o1) \<and>
      parse_loop ''RF.out'' [''[1] 2''] (AList.update 5 [] d1, []) = Inr (d2, o2) \<and>
      parse_file example_malformed_files ''RF.out'' = Inr (Some d2, o1 @ o2)) \<and>
   parse_file example_malformed_files ''RF.out'' =
     Inr (Some [(0, ''1''), (5, []), (1, ''2'')],
          [parse_warning ''[x] 2'' ''RF.out'', parse_warning ''[7'' ''RF.out''])"
proof -
  have f: "example_malformed_files ''RF.out'' = Some example_malformed"
    by (simp add: example_malformed_files_def)
  have l1: "file_lines example_malformed =
      [''[0] 1'' @ [LF]] @ (''[x] 2'' @ [LF]) # [''[7'' @ [LF], ''[5]'' @ [LF], ''[1] 2'']"
    unfolding example_malformed_def by code_simp
  have l2: "file_lines example_malformed =
      [''[0] 1'' @ [LF], ''[x] 2'' @ [LF], ''[7'' @ [LF]] @ (''[5]'' @ [LF]) # [''[1] 2'']"
    unfolding example_malformed_def by code_simp
  have m1: "malformed_line (strip (''[x] 2'' @ [LF]))"
    by code_simp
  have m2: "missing_value_line (strip (''[5]'' @ [LF])) 5"
    by code_simp
  have r: "parse_file example_malformed_files ''RF.out'' =
      Inr (Some [(0, ''1''), (5, []), (1, ''2'')],
           [parse_warning ''[x] 2'' ''RF.out'', parse_warning ''[7'' ''RF.out''])"
    unfolding example_malformed_files_def example_malformed_def by code_simp
  note t1 = malformed_line_skipped
              [of example_malformed_files "''RF.out''" example_malformed "[''[0] 1'' @ [LF]]"
                  "''[x] 2'' @ [LF]" "[''[7'' @ [LF], ''[5]'' @ [LF], ''[1] 2'']" 0, OF f l1]
  note t2 = malformed_line_skipped
              [of example_malformed_files "''RF.out''" example_malformed
                  "[''[0] 1'' @ [LF], ''[x] 2'' @ [LF], ''[7'' @ [LF]]"
                  "''[5]'' @ [LF]" "[''[1] 2'']" 5, OF f l2]
  from t1 [THEN conjunct1] m1 have e1: "\<exists>d1 o1 d2 o2.
      parse_loop ''RF.out'' [''[0] 1'' @ [LF]] ([], []) = Inr (d1, o1) \<and>
      parse_loop ''RF.out'' [''[7'' @ [LF], ''[5]'' @ [LF], ''[1] 2''] (d1, []) = Inr (d2, o2) \<and>
      parse_file example_malformed_files ''RF.out'' =
        Inr (Some d2, o1 @ [parse_warning (strip (''[x] 2'' @ [LF])) ''RF.out''] @ o2)"
    by (rule mp)
  from t2 [THEN conjunct2] m2 have e2: "\<exists>d1 o1 d2 o2.
      parse_loop ''RF.out'' [''[0] 1'' @ [LF], ''[x] 2'' @ [LF], ''[7'' @ [LF]] ([], []) = Inr (d1, o1) \<and>
      parse_loop ''RF.out'' [''[1] 2''] (AList.update 5 [] d1, []) = Inr (d2, o2) \<and>
      parse_file example_malformed_files ''RF.out'' = Inr (Some d2, o1 @ o2)"
    by (rule mp)
  from f l1 l2 m1 m2 e1 e2 r show ?thesis
    by (intro conjI)
qed

theorem missing_value_stored_counterexample:
  "parse_file example_missing_value_files ''RF.out'' = Inr (Some [(5, [])], [])"
  unfolding example_missing_value_files_def by code_simp

text \<open>
  C10. \<^const>\<open>parse_file\<close> never raises, and returns a dictionary for every file that exists.
  A line that does not begin with a bracket after trimming changes neither the dictionary
  nor the output, so the result is that of the lines beginning with a bracket alone.
\<close>

theorem parse_file_total:
  "(\<exists>r. parse_file fs filename = Inr r) \<and>
   (fs filename = Some content \<longrightarrow>
      (\<exists>data out. parse_file fs filename = Inr (Some data, out) \<and>
         parse_loop filename
           (filter (\<lambda>raw. startswith (strip raw) ''['') (file_lines content)) ([], []) =
         Inr (data, out))) \<and>
   (\<not> startswith (strip raw) ''['' \<longrightarrow> parse_line filename raw st = Inr st)"
  using parse_file_returns [of fs filename] parse_file_exists [of fs filename content]
        parse_loop_bracket_lines [of filename "file_lines content" "([], [])"]
        parse_line_other [of raw filename st]
  by auto

theorem parse_file_total_witness:
  "(\<exists>r. parse_file example_malformed_files ''RF.out'' = Inr r) \<and>
   example_malformed_files ''RF.out'' = Some example_malformed \<and>
   (\<exists>data out. parse_file example_malformed_files ''RF.out'' = Inr (Some data, out) \<and>
      parse_loop ''RF.out''
        (filter (\<lambda>raw. startswith (strip raw) ''['') (file_lines example_malformed)) ([], []) =
      Inr (data, out)) \<and>
   \<not> startswith (strip ''hello [1] 2'') ''['' \<and>
   parse_line ''RF.out'' ''hello [1] 2'' ([(0, ''1'')], []) = Inr ([(0, ''1'')], [])"
proof -
  have f: "example_malformed_files ''RF.out'' = Some example_malformed"
    by (simp add: example_malformed_files_def)
  have n: "\<not> startswith (strip ''hello [1] 2'') ''[''"
    by code_simp
  from parse_file_total
         [of example_malformed_files "''RF.out''" example_malformed "''hello [1] 2''"
             "([(0, ''1'')], [])"] f n
  show ?thesis
    by blast
qed

text \<open>
  C4, the code at a failing input. On a machine without the command \<^verbatim>\<open>taskkill\<close>, with
  every stage of every test case in order, test case 1 is located, converted and given its
  golden reference; then \<^verbatim>\<open>run_simulation\<close> raises \<^verbatim>\<open>FileNotFoundError\<close> before its \<^verbatim>\<open>try\<close>.
  The loop ends there: no container is returned, the test cases 2 to 12 are not attempted,
  \<^verbatim>\<open>run_all_testcases\<close> raises, and the mode \<^verbatim>\<open>all\<close> exits with status 1.
\<close>

theorem batch_aborts_without_taskkill:
  "check_testcase_exists no_taskkill_world 1 \<and>
   convert_testcase no_taskkill_world 1 \<and>
   generate_golden no_taskkill_world 1 \<and>
   run_simulation no_taskkill_world 1 = Inl FileNotFoundError \<and>
   run_testcase no_taskkill_world 1 initial_batch_state = Inl FileNotFoundError \<and>
   batch_loop no_taskkill_world [1] initial_batch_state = Inl FileNotFoundError \<and>
   batch_loop no_taskkill_world testcase_range initial_batch_state = Inl FileNotFoundError \<and>
   run_all_testcases no_taskkill_world = Inl FileNotFoundError \<and>
   main no_taskkill_world [Line ''all''] = 1"
proof -
  have a: "check_testcase_exists no_taskkill_world 1" "convert_testcase no_taskkill_world 1"
    "generate_golden no_taskkill_world 1"
    by (simp_all add: no_taskkill_world_def)
  have s: "run_simulation no_taskkill_world 1 = Inl FileNotFoundError"
    by (simp add: run_simulation_def no_taskkill_world_def)
  have t: "run_testcase no_taskkill_world 1 initial_batch_state = Inl FileNotFoundError"
    using a by (simp add: run_testcase_def s bind_result_def)
  have l1: "batch_loop no_taskkill_world [1] initial_batch_state = Inl FileNotFoundError"
    by (simp add: t)
  have l: "batch_loop no_taskkill_world testcase_range initial_batch_state =
      Inl FileNotFoundError"
    unfolding testcase_range_def by (subst upto.simps) (simp add: t)
  have fv: "find_vivado no_taskkill_world \<noteq> None" "script_tcl_exists no_taskkill_world"
    by (simp_all add: no_taskkill_world_def)
  have r: "run_all_testcases no_taskkill_world = Inl FileNotFoundError"
    using fv by (simp add: run_all_testcases_def l bind_result_def)
  have "lower (strip ''all'') = ''all''"
    by code_simp
  from main_all [OF this, of no_taskkill_world "[]"] r
  have m: "main no_taskkill_world [Line ''all''] = 1"
    by (simp add: main_except_def)
  from a s t l1 l r m show ?thesis
    by (intro conjI)
qed

text \<open>
  C2, the code at a failing input. Test case 1 has no input file, the conversion of test
  case 5 fails and the golden generation of test case 7 fails, so three identifiers are
  skipped; the other nine are verified with matching artifacts. \<^verbatim>\<open>run_all_testcases\<close>
  returns \<^verbatim>\<open>True\<close> and the mode \<^verbatim>\<open>all\<close> exits with status 0.
\<close>

theorem batch_passes_with_skips:
  "\<not> check_testcase_exists skipping_world 1 \<and>
   \<not> convert_testcase skipping_world 5 \<and>
   \<not> generate_golden skipping_world 7 \<and>
   map_sum id skipped (batch_loop skipping_world testcase_range initial_batch_state) =
     Inr [1, 5, 7] \<and>
   run_all_testcases skipping_world = Inr True \<and>
   main skipping_world [Line ''all''] = 0"
proof -
  let ?ok = "\<lparr>success = True, rf_pass = True, dm_pass = True,
              rf_mismatches = 0, dm_mismatches = 0, rf_details = [], dm_details = []\<rparr>"
  let ?st = "\<lparr>results = [(2, ?ok), (3, ?ok), (4, ?ok), (6, ?ok), (8, ?ok), (9, ?ok),
                          (10, ?ok), (11, ?ok), (12, ?ok)],
               sim_failures = [], skipped = [1, 5, 7]\<rparr>"
  have a: "\<not> check_testcase_exists skipping_world 1" "\<not> convert_testcase skipping_world 5"
    "\<not> generate_golden skipping_world 7"
    by (simp_all add: skipping_world_def)
  have l: "batch_loop skipping_world testcase_range initial_batch_state = Inr ?st"
    unfolding skipping_world_def passing_testbench_def example_artifact_def by code_simp
  have v: "batch_verdict ?st = True"
    unfolding batch_verdict_def testcase_range_def by code_simp
  have fv: "find_vivado skipping_world \<noteq> None" "script_tcl_exists skipping_world"
    by (simp_all add: skipping_world_def)
  have r: "run_all_testcases skipping_world = Inr True"
    using fv v by (simp add: run_all_testcases_def l bind_result_def)
  have "lower (strip ''all'') = ''all''"
    by code_simp
  from main_all [OF this, of skipping_world "[]"] r
  have m: "main skipping_world [Line ''all''] = 0"
    by simp
  have s: "map_sum id skipped (batch_loop skipping_world testcase_range initial_batch_state) =
      Inr [1, 5, 7]"
    unfolding l by simp
  from a s r m show ?thesis
    by (intro conjI)
qed

text \<open>
  C8. At the prompt an answer that is not accepted gets its message and the prompt is issued
  again: the loop goes on with the next input, whatever the number of such answers. A keyboard
  interrupt at the prompt makes \<^verbatim>\<open>main\<close> return, so the exit status is 0, whereas the handler
  of the outer \<^verbatim>\<open>try\<close> turns a keyboard interrupt into exit status 1.
\<close>

theorem prompt_reprompts_and_interrupt_is_clean:
  assumes "\<forall>answer \<in> set answers. invalid_input w answer"
  shows "prompt_loop w (map Line answers @ evs) =
           (fst (prompt_loop w evs), map invalid_input_message answers @ snd (prompt_loop w evs)) \<and>
         main w (map Line answers @ evs) = main w evs \<and>
         prompt_loop w (map Line answers @ Interrupt # evs) =
           (Inr Returned, map invalid_input_message answers @ [cancelled_message]) \<and>
         main w (map Line answers @ Interrupt # evs) = 0 \<and>
         main_except KeyboardInterrupt = 1"
  using prompt_loop_invalids [OF assms, of evs] prompt_loop_invalids [OF assms, of "Interrupt # evs"]
        main_invalids [OF assms, of evs] main_invalids [OF assms, of "Interrupt # evs"]
        main_interrupt [of w evs]
  by (simp add: main_except_def prompt_loop_interrupt del: prompt_loop.simps)

theorem prompt_reprompts_and_interrupt_is_clean_witness:
  "invalid_input example_world ''abc'' \<and> invalid_input example_world ''13'' \<and>
   invalid_input example_world '' 1 '' \<and>
   prompt_loop example_world [Line ''abc'', Line ''13'', Line '' 1 '', Interrupt] =
     (Inr Returned, [invalid_message, range_message, not_found_message 1, cancelled_message]) \<and>
   main example_world [Line ''abc'', Line ''13'', Line '' 1 '', Interrupt] = 0 \<and>
   prompt_loop example_world [Line ''abc'', Line ''13'', Line '' 1 '', Line ''2''] =
     (Inr (Chosen 2), [invalid_message, range_message, not_found_message 1])"
proof -
  have i: "invalid_input example_world ''abc''" "invalid_input example_world ''13''"
    "invalid_input example_world '' 1 ''"
    unfolding invalid_input_def example_world_def by code_simp+
  then have h: "\<forall>answer \<in> set [''abc'', ''13'', '' 1 '']. invalid_input example_world answer"
    by simp
  have m: "map invalid_input_message [''abc'', ''13'', '' 1 ''] =
      [invalid_message, range_message, not_found_message 1]"
    unfolding invalid_input_message_def by code_simp
  have c: "prompt_loop example_world [Line ''2''] = (Inr (Chosen 2), [])"
    unfolding example_world_def by code_simp
  note t1 = prompt_reprompts_and_interrupt_is_clean [OF h, of "[]"]
  note t2 = prompt_reprompts_and_interrupt_is_clean [OF h, of "[Line ''2'']"]
  from t1 have a: "prompt_loop example_world [Line ''abc'', Line ''13'', Line '' 1 '', Interrupt] =
     (Inr Returned, [invalid_message, range_message, not_found_message 1, cancelled_message])"
    "main example_world [Line ''abc'', Line ''13'', Line '' 1 '', Interrupt] = 0"
    unfolding m by simp_all
  from t2 have b: "prompt_loop example_world [Line ''abc'', Line ''13'', Line '' 1 '', Line ''2''] =
     (Inr (Chosen 2), [invalid_message, range_message, not_found_message 1])"
    unfolding m c by simp
  from i a b show ?thesis
    by (intro conjI)
qed

end
